theory Spec2Isabelle
  imports Main "HOL-Library.Word" "HOL-Library.Multiset"
begin

section \<open>The YAML document model of Yaml.h\<close>

text \<open>
  The classes of namespace \<open>wb::yaml\<close>: \<open>JsonWriterOptions\<close>, the abstract \<open>YamlNode\<close>
  and its three subclasses \<open>YamlScalar\<close>, \<open>YamlSequence\<close> and \<open>YamlMapping\<close>.

  A \<open>unique_ptr<YamlNode>\<close> is either null or the sole owner of one object, so a document
  is a tree. The object a pointer owns is kept together with its address: two pointers are
  equal (\<open>operator==\<close> of \<open>unique_ptr\<close>) when they hold the same address, whatever the
  objects look like. The mapping's container is keyed by such pointers.

  \<open>Indentation\<close> is an \<open>int\<close>: a word of 32 bits, read as a signed number (\<open>sint\<close>).
\<close>

record JsonWriterOptions =
  Indentation :: "32 word"
  UnquoteNumbers :: bool

definition JsonWriterOptions_default :: JsonWriterOptions where
  "JsonWriterOptions_default = \<lparr>Indentation = 0, UnquoteNumbers = False\<rparr>"

type_synonym addr = nat

datatype 'a unique_ptr = nullptr | Ptr addr 'a

datatype YamlNode =
    YamlScalar (Tag: string) (Source: string) (Content: string)
  | YamlSequence (Tag: string) (Source: string) (Entries: "YamlNode unique_ptr list")
  | YamlMapping (Tag: string) (Source: string)
      (Map: "(YamlNode unique_ptr \<times> YamlNode unique_ptr) list")

type_synonym KVP = "YamlNode unique_ptr \<times> YamlNode unique_ptr"

fun get :: "'a unique_ptr \<Rightarrow> 'a option" where
  "get nullptr = None"
| "get (Ptr a x) = Some x"

fun ptr_eq :: "'a unique_ptr \<Rightarrow> 'a unique_ptr \<Rightarrow> bool" where
  "ptr_eq nullptr nullptr = True"
| "ptr_eq (Ptr a x) (Ptr b y) = (a = b)"
| "ptr_eq p q = False"

subsection \<open>The container of YamlMapping\<close>

text \<open>
  \<open>Map\<close> is an \<open>unordered_map<unique_ptr<YamlNode>, unique_ptr<YamlNode>>\<close> with the default
  hash and key equality, which for \<open>unique_ptr\<close> are those of the stored pointer. Its state
  is the list of its pairs in iteration order. The container itself
  (Foundation/STL/Collections/UnorderedMap.h, the platform's hash table) is not among the
  sources: where a new pair lands in the iteration order depends on the hash of the
  pointer value and on the bucket layout, and C++ leaves it open. So \<open>insert\<close> takes the
  placement as a parameter \<open>place\<close>, which receives the new pair and the pairs already
  stored and returns the new iteration order. What every container does is to keep the
  pairs it has and to add the new one: the new iteration order is some arrangement of
  the old pairs and the new pair. \<open>at_front\<close> is the container that links a new node at the
  head of its node list, as the hash table of libstdc++ does with a node whose bucket was
  empty, as long as it does not rehash.
\<close>

type_synonym placement = "KVP \<Rightarrow> KVP list \<Rightarrow> KVP list"

definition at_front :: placement where
  "at_front kvp m = kvp # m"

definition Map_find :: "KVP list \<Rightarrow> YamlNode unique_ptr \<Rightarrow> KVP option" where
  "Map_find m key = List.find (\<lambda>kvp. ptr_eq (fst kvp) key) m"

definition Map_insert :: "placement \<Rightarrow> KVP \<Rightarrow> KVP list \<Rightarrow> KVP list" where
  "Map_insert place kvp m =
     (case Map_find m (fst kvp) of
        Some it \<Rightarrow> m
      | None \<Rightarrow> place kvp m)"

subsection \<open>YamlNode::AddIndent and YamlScalar::ToJsonValue\<close>

text \<open>
  The loop of \<open>AddIndent\<close> appends one tab for every value of its counter \<open>ii\<close> from 0 up
  that is below \<open>Indentation\<close>: as many tabs as \<open>Indentation\<close> says, none when it is
  negative.
\<close>

definition AddIndent :: "JsonWriterOptions \<Rightarrow> string \<Rightarrow> string" where
  "AddIndent Options OnString =
     OnString @ replicate (nat (sint (Indentation Options))) (CHR 0x09)"

text \<open>
  \<open>toupper\<close> of the C locale. The comparisons of the source are on \<open>char\<close>; the digits
  are the codes 48 to 57 for a signed and for an unsigned \<open>char\<close> alike.
\<close>

definition toupper :: "char \<Rightarrow> char" where
  "toupper c =
     (if (97::nat) \<le> of_char c \<and> of_char c \<le> (122::nat)
      then char_of (of_char c - (32::nat)) else c)"

definition is_numeric_char :: "char \<Rightarrow> bool" where
  "is_numeric_char c \<longleftrightarrow>
     ((of_char (CHR ''0'') :: nat) \<le> of_char c \<and> of_char c \<le> (of_char (CHR ''9'') :: nat))
     \<or> toupper c = CHR ''E'' \<or> toupper c = CHR ''.''
     \<or> c = CHR ''+'' \<or> c = CHR ''-''"

text \<open>
  \<open>wb::json::JsonString::Escape\<close> is declared elsewhere; it is the parameter \<open>Escape\<close> of
  everything that writes JSON. \<open>ToJsonValue_loop\<close> is the \<open>for\<close> loop of \<open>ToJsonValue\<close>
  over the characters still to be looked at.
\<close>

definition quoted :: "(string \<Rightarrow> string) \<Rightarrow> string \<Rightarrow> string" where
  "quoted Escape content = ''\"'' @ Escape content @ ''\"''"

fun ToJsonValue_loop :: "(string \<Rightarrow> string) \<Rightarrow> string \<Rightarrow> string \<Rightarrow> string" where
  "ToJsonValue_loop Escape content [] = content"
| "ToJsonValue_loop Escape content (ch # rest) =
     (if is_numeric_char ch then ToJsonValue_loop Escape content rest
      else quoted Escape content)"

definition ToJsonValue :: "(string \<Rightarrow> string) \<Rightarrow> string \<Rightarrow> bool \<Rightarrow> string" where
  "ToJsonValue Escape content Unquote =
     (if \<not> Unquote then quoted Escape content
      else ToJsonValue_loop Escape content content)"

subsection \<open>ToJson\<close>

text \<open>
  The three overrides of \<open>ToJson\<close>. \<open>Entries_loop\<close> and \<open>Map_loop\<close> are the range-for loops
  of the sequence and of the mapping, with the string built so far and the flag \<open>First\<close>;
  \<open>Value_json\<close> and \<open>Key_json\<close> are their null tests. \<open>Options\<close> is passed by value: it is
  incremented before the loop, which hands it to the children, and decremented after it.
  Both are operations on a word of 32 bits: the increment of the largest \<open>int\<close>,
  2147483647, gives the smallest, -2147483648, as the compiled program does (C++ itself
  leaves that overflow undefined), and the pairs are then written with no tab in front.
\<close>

primrec ToJson :: "(string \<Rightarrow> string) \<Rightarrow> JsonWriterOptions \<Rightarrow> YamlNode \<Rightarrow> string"
  and Entries_loop ::
    "(string \<Rightarrow> string) \<Rightarrow> JsonWriterOptions \<Rightarrow> YamlNode unique_ptr list \<Rightarrow> string \<Rightarrow> bool \<Rightarrow> string"
  and Map_loop ::
    "(string \<Rightarrow> string) \<Rightarrow> JsonWriterOptions \<Rightarrow> KVP list \<Rightarrow> string \<Rightarrow> bool \<Rightarrow> string"
  and KVP_json :: "(string \<Rightarrow> string) \<Rightarrow> JsonWriterOptions \<Rightarrow> KVP \<Rightarrow> string \<Rightarrow> string"
  and Value_json ::
    "(string \<Rightarrow> string) \<Rightarrow> JsonWriterOptions \<Rightarrow> YamlNode unique_ptr \<Rightarrow> string \<Rightarrow> string"
  and Key_json ::
    "(string \<Rightarrow> string) \<Rightarrow> JsonWriterOptions \<Rightarrow> YamlNode unique_ptr \<Rightarrow> string \<Rightarrow> string"
where
  "ToJson Escape Options (YamlScalar t s c) =
     [] @ ToJsonValue Escape c (UnquoteNumbers Options)"
| "ToJson Escape Options (YamlSequence t s es) =
     (let ret = ''[\<newline>'';
          Options = Options\<lparr>Indentation := Indentation Options + 1\<rparr>;
          ret = Entries_loop Escape Options es ret True;
          ret = ret @ ''\<newline>'';
          Options = Options\<lparr>Indentation := Indentation Options - 1\<rparr>;
          ret = AddIndent Options ret
      in ret @ '']'')"
| "ToJson Escape Options (YamlMapping t s m) =
     (let ret = ''{\<newline>'';
          Options = Options\<lparr>Indentation := Indentation Options + 1\<rparr>;
          ret = Map_loop Escape Options m ret True;
          ret = ret @ ''\<newline>'';
          Options = Options\<lparr>Indentation := Indentation Options - 1\<rparr>;
          ret = AddIndent Options ret
      in ret @ ''}'')"
| "Entries_loop Escape Options [] ret First = ret"
| "Entries_loop Escape Options (pNode # rest) ret First =
     (let ret = (if \<not> First then ret @ '',\<newline>'' else ret);
          ret = AddIndent Options ret;
          ret = Value_json Escape Options pNode ret
      in Entries_loop Escape Options rest ret False)"
| "Map_loop Escape Options [] ret First = ret"
| "Map_loop Escape Options (kvp # rest) ret First =
     (let ret = (if \<not> First then ret @ '',\<newline>'' else ret);
          ret = AddIndent Options ret;
          ret = KVP_json Escape Options kvp ret
      in Map_loop Escape Options rest ret False)"
| "KVP_json Escape Options (k, v) ret =
     (let ret = Key_json Escape Options k ret;
          ret = ret @ '': ''
      in Value_json Escape Options v ret)"
| "Value_json Escape Options nullptr ret = ret @ ''null''"
| "Value_json Escape Options (Ptr a n) ret = ret @ ToJson Escape Options n"
| "Key_json Escape Options nullptr ret = ret @ ''\"\"''"
| "Key_json Escape Options (Ptr a n) ret = ret @ ToJson Escape Options n"

subsection \<open>DeepCopy\<close>

text \<open>
  \<open>new\<close> and \<open>make_unique\<close> return an address that is not in use. The allocator is a
  counter: every address from the counter on is free, an allocation takes the counter's
  value and increments it. \<open>DeepCopy\<close> takes the counter and returns the pointer to the
  copy with the counter after all its allocations.

  \<open>YamlScalar::DeepCopy\<close> copy-constructs the scalar. The other two make an empty node
  from \<open>Source\<close> (the constructor of \<open>YamlNode\<close> sets \<open>Tag\<close> to "?"), assign the base members
  with \<open>YamlNode::operator=\<close>, and fill the node in a loop: \<open>DeepCopy_Entries\<close> is the loop
  of the sequence over the entries still to be copied, with \<open>pRet->Entries\<close> so far, and
  \<open>DeepCopy_Map\<close> that of the mapping with \<open>pRet->Map\<close> so far. \<open>DeepCopy_ptr\<close> is the null
  test of both loops: null stays null, anything else is copied. The mapping's loop tests
  key and value in four branches, which all insert the pair of the two results; the key
  is copied before the value here (C++ does not fix the order of the two calls).
\<close>

definition assign_base :: "YamlNode \<Rightarrow> string \<Rightarrow> string \<Rightarrow> YamlNode" where
  "assign_base pRet t s =
     (case pRet of
        YamlScalar t' s' c \<Rightarrow> YamlScalar t s c
      | YamlSequence t' s' es \<Rightarrow> YamlSequence t s es
      | YamlMapping t' s' m \<Rightarrow> YamlMapping t s m)"

primrec DeepCopy :: "placement \<Rightarrow> YamlNode \<Rightarrow> addr \<Rightarrow> YamlNode unique_ptr \<times> addr"
  and DeepCopy_Entries ::
    "placement \<Rightarrow> YamlNode unique_ptr list \<Rightarrow> YamlNode unique_ptr list \<Rightarrow> addr
       \<Rightarrow> YamlNode unique_ptr list \<times> addr"
  and DeepCopy_Map :: "placement \<Rightarrow> KVP list \<Rightarrow> KVP list \<Rightarrow> addr \<Rightarrow> KVP list \<times> addr"
  and DeepCopy_KVP :: "placement \<Rightarrow> KVP \<Rightarrow> addr \<Rightarrow> KVP \<times> addr"
  and DeepCopy_ptr :: "placement \<Rightarrow> YamlNode unique_ptr \<Rightarrow> addr \<Rightarrow> YamlNode unique_ptr \<times> addr"
where
  "DeepCopy place (YamlScalar t s c) fresh = (Ptr fresh (YamlScalar t s c), fresh + 1)"
| "DeepCopy place (YamlSequence t s es) fresh =
     (let pRet = assign_base (YamlSequence ''?'' s []) t s;
          (entries, fresh') = DeepCopy_Entries place es (Entries pRet) (fresh + 1)
      in (Ptr fresh (YamlSequence (Tag pRet) (Source pRet) entries), fresh'))"
| "DeepCopy place (YamlMapping t s m) fresh =
     (let pRet = assign_base (YamlMapping ''?'' s []) t s;
          (pairs, fresh') = DeepCopy_Map place m (Map pRet) (fresh + 1)
      in (Ptr fresh (YamlMapping (Tag pRet) (Source pRet) pairs), fresh'))"
| "DeepCopy_Entries place [] entries fresh = (entries, fresh)"
| "DeepCopy_Entries place (it # rest) entries fresh =
     (let (p, fresh') = DeepCopy_ptr place it fresh
      in DeepCopy_Entries place rest (entries @ [p]) fresh')"
| "DeepCopy_Map place [] pairs fresh = (pairs, fresh)"
| "DeepCopy_Map place (it # rest) pairs fresh =
     (let (kvp, fresh') = DeepCopy_KVP place it fresh
      in DeepCopy_Map place rest (Map_insert place kvp pairs) fresh')"
| "DeepCopy_KVP place (k, v) fresh =
     (let (k', fresh') = DeepCopy_ptr place k fresh;
          (v', fresh'') = DeepCopy_ptr place v fresh'
      in ((k', v'), fresh''))"
| "DeepCopy_ptr place nullptr fresh = (nullptr, fresh)"
| "DeepCopy_ptr place (Ptr a n) fresh = DeepCopy place n fresh"

subsection \<open>YamlMapping::Add\<close>

text \<open>
  \<open>Add\<close> looks the key pointer up and throws when the container has it; the message reads
  \<open>Source\<close> through both pointers, which for a null key is a null dereference (undefined in
  C++, an error of its own here). Otherwise the pair is inserted.
\<close>

datatype error = FormatException string | NullDereference

fun Add :: "placement \<Rightarrow> YamlNode \<Rightarrow> YamlNode unique_ptr \<Rightarrow> YamlNode unique_ptr \<Rightarrow> error + YamlNode" where
  "Add place (YamlMapping t s m) pFrom pTo =
     (case Map_find m pFrom of
        Some it \<Rightarrow>
          (case (get pFrom, get (fst it)) of
             (Some f, Some k) \<Rightarrow>
               Inl (FormatException (''Duplicate keys found at '' @ Source f @ '' and '' @ Source k
                      @ '' are not permitted in mapping at '' @ s @ ''.''))
           | _ \<Rightarrow> Inl NullDereference)
      | None \<Rightarrow> Inr (YamlMapping t s (Map_insert place (pFrom, pTo) m)))"

subsection \<open>Equality of trees and the invariant of the container\<close>

text \<open>
  \<open>same_tree\<close> is deep structural equality: the same class, the same members, and the same
  children in the same places, whatever the addresses. \<open>keys_unique\<close> is the invariant of
  \<open>unordered_map\<close>, no two stored keys are equal pointers, and \<open>well_formed\<close> says so of every
  mapping of a tree.
\<close>

primrec strip :: "YamlNode \<Rightarrow> YamlNode"
  and strip_Entries :: "YamlNode unique_ptr list \<Rightarrow> YamlNode unique_ptr list"
  and strip_Map :: "KVP list \<Rightarrow> KVP list"
  and strip_KVP :: "KVP \<Rightarrow> KVP"
  and strip_ptr :: "YamlNode unique_ptr \<Rightarrow> YamlNode unique_ptr"
where
  "strip (YamlScalar t s c) = YamlScalar t s c"
| "strip (YamlSequence t s es) = YamlSequence t s (strip_Entries es)"
| "strip (YamlMapping t s m) = YamlMapping t s (strip_Map m)"
| "strip_Entries [] = []"
| "strip_Entries (p # ps) = strip_ptr p # strip_Entries ps"
| "strip_Map [] = []"
| "strip_Map (kvp # m) = strip_KVP kvp # strip_Map m"
| "strip_KVP (k, v) = (strip_ptr k, strip_ptr v)"
| "strip_ptr nullptr = nullptr"
| "strip_ptr (Ptr a n) = Ptr 0 (strip n)"

definition same_tree :: "YamlNode unique_ptr \<Rightarrow> YamlNode unique_ptr \<Rightarrow> bool" where
  "same_tree p q \<longleftrightarrow> strip_ptr p = strip_ptr q"

fun keys_unique :: "KVP list \<Rightarrow> bool" where
  "keys_unique [] = True"
| "keys_unique (kvp # m) = (Map_find m (fst kvp) = None \<and> keys_unique m)"

primrec well_formed :: "YamlNode \<Rightarrow> bool"
  and well_formed_Entries :: "YamlNode unique_ptr list \<Rightarrow> bool"
  and well_formed_Map :: "KVP list \<Rightarrow> bool"
  and well_formed_KVP :: "KVP \<Rightarrow> bool"
  and well_formed_ptr :: "YamlNode unique_ptr \<Rightarrow> bool"
where
  "well_formed (YamlScalar t s c) = True"
| "well_formed (YamlSequence t s es) = well_formed_Entries es"
| "well_formed (YamlMapping t s m) = (keys_unique m \<and> well_formed_Map m)"
| "well_formed_Entries [] = True"
| "well_formed_Entries (p # ps) = (well_formed_ptr p \<and> well_formed_Entries ps)"
| "well_formed_Map [] = True"
| "well_formed_Map (kvp # m) = (well_formed_KVP kvp \<and> well_formed_Map m)"
| "well_formed_KVP (k, v) = (well_formed_ptr k \<and> well_formed_ptr v)"
| "well_formed_ptr nullptr = True"
| "well_formed_ptr (Ptr a n) = well_formed n"

subsection \<open>Trees up to the order of the pairs\<close>

text \<open>
  \<open>unordered_of\<close> forgets the addresses, as \<open>strip\<close> does, and the order in which a mapping
  iterates its pairs: of a mapping it keeps the pairs as a multiset. Two trees with the
  same image differ in the order of the pairs of their mappings at most. \<open>single_pairs\<close>
  says that no mapping of a tree has more than one pair.
\<close>

datatype unordered =
    UScalar string string string
  | USequence string string "unordered option list"
  | UMapping string string "(unordered option \<times> unordered option) multiset"

primrec unordered_of :: "YamlNode \<Rightarrow> unordered"
  and unordered_Entries :: "YamlNode unique_ptr list \<Rightarrow> unordered option list"
  and unordered_Map :: "KVP list \<Rightarrow> (unordered option \<times> unordered option) list"
  and unordered_KVP :: "KVP \<Rightarrow> unordered option \<times> unordered option"
  and unordered_ptr :: "YamlNode unique_ptr \<Rightarrow> unordered option"
where
  "unordered_of (YamlScalar t s c) = UScalar t s c"
| "unordered_of (YamlSequence t s es) = USequence t s (unordered_Entries es)"
| "unordered_of (YamlMapping t s m) = UMapping t s (mset (unordered_Map m))"
| "unordered_Entries [] = []"
| "unordered_Entries (p # ps) = unordered_ptr p # unordered_Entries ps"
| "unordered_Map [] = []"
| "unordered_Map (kvp # m) = unordered_KVP kvp # unordered_Map m"
| "unordered_KVP (k, v) = (unordered_ptr k, unordered_ptr v)"
| "unordered_ptr nullptr = None"
| "unordered_ptr (Ptr a n) = Some (unordered_of n)"

primrec single_pairs :: "YamlNode \<Rightarrow> bool"
  and single_pairs_Entries :: "YamlNode unique_ptr list \<Rightarrow> bool"
  and single_pairs_Map :: "KVP list \<Rightarrow> bool"
  and single_pairs_KVP :: "KVP \<Rightarrow> bool"
  and single_pairs_ptr :: "YamlNode unique_ptr \<Rightarrow> bool"
where
  "single_pairs (YamlScalar t s c) = True"
| "single_pairs (YamlSequence t s es) = single_pairs_Entries es"
| "single_pairs (YamlMapping t s m) = (length m \<le> 1 \<and> single_pairs_Map m)"
| "single_pairs_Entries [] = True"
| "single_pairs_Entries (p # ps) = (single_pairs_ptr p \<and> single_pairs_Entries ps)"
| "single_pairs_Map [] = True"
| "single_pairs_Map (kvp # m) = (single_pairs_KVP kvp \<and> single_pairs_Map m)"
| "single_pairs_KVP (k, v) = (single_pairs_ptr k \<and> single_pairs_ptr v)"
| "single_pairs_ptr nullptr = True"
| "single_pairs_ptr (Ptr a n) = single_pairs n"

subsection \<open>The numeric pattern of the specification\<close>

text \<open>
  The specification gives the unquoting test as the regular expression
  \<open>^[-+0-9.eE]+$\<close>: one or more characters, each of them a sign, a digit, a dot or
  the letter e in either case. \<open>matches_numeric_regex\<close> is that pattern, written from the
  specification's words, for comparison with the loop of \<open>ToJsonValue\<close>.
\<close>

definition matches_numeric_regex :: "string \<Rightarrow> bool" where
  "matches_numeric_regex content \<longleftrightarrow>
     content \<noteq> [] \<and> set content \<subseteq> set ''-+0123456789.eE''"

subsection \<open>Joining the items of a container\<close>

text \<open>
  \<open>joined sep xs\<close> is the concatenation of the strings \<open>xs\<close> with \<open>sep\<close> between any two
  neighbours: what the loops of \<open>ToJson\<close> build with their flag \<open>First\<close>.
\<close>

fun joined :: "string \<Rightarrow> string list \<Rightarrow> string" where
  "joined sep [] = []"
| "joined sep [x] = x"
| "joined sep (x # y # ys) = x @ sep @ joined sep (y # ys)"

section \<open>The XML document model of Xml.h\<close>

text \<open>
  The classes of namespace \<open>wb::xml\<close>, as Xml.h declares them: an attribute is a pair of
  strings, a node is a document, an element or a text, and every node has the vector
  \<open>Children\<close> and the string \<open>SourceLocation\<close>. Children are held by \<open>shared_ptr\<close>; as for
  the YAML nodes a pointer is null or an address with the object there, so that "the same
  element" is the same pointer. \<open>IsElement\<close> is written in the header: true for an
  \<open>XmlElement\<close> only.
\<close>

record XmlAttribute =
  Name :: string
  Value :: string

datatype 'a shared_ptr = null | Shared addr 'a

datatype XmlNode =
    XmlDocument (Children: "XmlNode shared_ptr list") (SourceLocation: string)
  | XmlElement (Children: "XmlNode shared_ptr list") (SourceLocation: string)
      (LocalName: string) (Attributes: "XmlAttribute list")
  | XmlText (Children: "XmlNode shared_ptr list") (SourceLocation: string) (Text: string)

fun IsElement :: "XmlNode \<Rightarrow> bool" where
  "IsElement (XmlElement cs loc name attrs) = True"
| "IsElement n = False"

fun is_element_ptr :: "XmlNode shared_ptr \<Rightarrow> bool" where
  "is_element_ptr null = False"
| "is_element_ptr (Shared a n) = IsElement n"

text \<open>
  Modelled from the spec: the body of \<open>XmlNode::Elements\<close> is in
  Implementation/XmlImpl.h, which is not among the sources. The specification: "Elements()
  returns, in document order, exactly those children whose kind is Element."
\<close>

definition Elements :: "XmlNode \<Rightarrow> XmlNode shared_ptr list" where
  "Elements n = filter is_element_ptr (Children n)"

text \<open>
  Modelled from the spec: the body of \<open>XmlNode::FindNthChild\<close> is in
  Implementation/XmlImpl.h as well. The specification: "FindChild(name): returns the first
  direct child Element with LocalName == name, else null. Case-sensitive.
  FindNthChild(name, n): the (n+1)-th matching direct child, else null"; the header: "returns
  the Nth occurrance of the tag name in the children list. Returns NULL if fewer than
  (N+1) child elements match the tag name." The model walks the children in order and
  counts the matching elements down from \<open>N\<close>, an \<open>int\<close> as in the declaration; \<open>has_tag\<close> is
  the test for a matching child.
\<close>

fun has_tag :: "string \<Rightarrow> XmlNode shared_ptr \<Rightarrow> bool" where
  "has_tag TagName (Shared a (XmlElement cs loc name attrs)) = (name = TagName)"
| "has_tag TagName p = False"

fun FindNthChild_loop :: "string \<Rightarrow> int \<Rightarrow> XmlNode shared_ptr list \<Rightarrow> XmlNode shared_ptr" where
  "FindNthChild_loop TagName N [] = null"
| "FindNthChild_loop TagName N (c # cs) =
     (if has_tag TagName c
      then (if N = 0 then c else FindNthChild_loop TagName (N - 1) cs)
      else FindNthChild_loop TagName N cs)"

definition FindNthChild :: "XmlNode \<Rightarrow> string \<Rightarrow> int \<Rightarrow> XmlNode shared_ptr" where
  "FindNthChild n TagName N = FindNthChild_loop TagName N (Children n)"

text \<open>
  Modelled from the spec: \<open>XmlNode::AppendChild\<close> (Implementation/XmlImpl.h), "appends the
  specified node at the end of the list of child nodes".
\<close>

definition AppendChild :: "XmlNode \<Rightarrow> XmlNode shared_ptr \<Rightarrow> XmlNode" where
  "AppendChild n pNewChild =
     (case n of
        XmlDocument cs loc \<Rightarrow> XmlDocument (cs @ [pNewChild]) loc
      | XmlElement cs loc name attrs \<Rightarrow> XmlElement (cs @ [pNewChild]) loc name attrs
      | XmlText cs loc t \<Rightarrow> XmlText (cs @ [pNewChild]) loc t)"

section \<open>The parser of XmlParser.h\<close>

text \<open>
  XmlParser.h declares the parser and its reader; their bodies are in
  Implementation/XmlParserImpl.h, which is not among the sources. What follows is the
  state machine as section 4.C of the specification describes it; \<open>State\<close> is the
  enumeration of the header. The reader of section 4.A (current character, lookahead, the
  stream behind them) is \<open>Input\<close>: the characters still to come, the current one first.
  \<open>CurrentLineNumber\<close> counts the line feeds consumed. A token is read when all of it is
  there (the specification: "a complete token must be available when its parse begins");
  until then the machine keeps its state and reports that the stream has no more data.
  \<open>NodeStack\<close> holds the open elements, the innermost first, each with its address and
  the children it has so far; an element is put into its parent, or into the document,
  when it is closed, which gives the tree that attaching it when it is opened gives.
  \<open>Fresh\<close> is the allocation counter for the nodes the parser makes.
\<close>

datatype State =
    Unknown | Initializing | Idle | ParsingTag | ParsingXMLDeclaration | ParsingComment
  | ParsingDOCTYPE | ParsingCDATA | ParsingPCDATA | ParsingOpeningTag | ParsingAttributeKey
  | ParsingAttributeValueStart | ParsingAttributeValue | ParsingOpenCloseTagCompletion
  | ParsingClosingTag

record XmlParser =
  CurrentSource :: string
  CurrentLineNumber :: int
  Input :: string
  pCurrentDoc :: XmlNode
  NodeStack :: "(addr \<times> XmlNode) list"
  CurrentState :: State
  QuoteChar :: char
  CurrentKey :: string
  CurrentValue :: string
  Fresh :: addr

text \<open>
  Modelled from the spec: the constructor of \<open>XmlParser\<close> and the stream handed to
  \<open>PartialParse\<close>. "Initial state is Idle with an empty NodeStack and a freshly allocated
  Document as the implicit root-in-progress"; the line number starts at 1 and there is no
  file tag.
\<close>

definition NewParser :: "string \<Rightarrow> XmlParser" where
  "NewParser stream =
     \<lparr>CurrentSource = [], CurrentLineNumber = 1, Input = stream,
      pCurrentDoc = XmlDocument [] [], NodeStack = [], CurrentState = Idle,
      QuoteChar = CHR ''\"'', CurrentKey = [], CurrentValue = [], Fresh = 1\<rparr>"

text \<open>
  What one step of the machine comes to: it goes on, it has completed a top-level
  document, the stream has no more data for it, or the input is in error.
\<close>

datatype step_result =
    Continue XmlParser
  | Completed XmlNode XmlParser
  | Starved XmlParser
  | Failed error

text \<open>\<open>IsWhitespace\<close> is written in XmlParser.h.\<close>

definition IsWhitespace :: "char \<Rightarrow> bool" where
  "IsWhitespace ch \<longleftrightarrow>
     ch = CHR '' '' \<or> ch = CHR 0x09 \<or> ch = CHR ''\<newline>'' \<or> ch = CHR 0x0D"

text \<open>
  Modelled from the spec: \<open>StreamParser::GetSource\<close>, which "returns "<file>:<line>" or
  "line <line>" if no file tag". \<open>decimal\<close> writes the line number.
\<close>

fun decimal :: "nat \<Rightarrow> string" where
  "decimal n =
     (if n < 10 then [''0123456789'' ! n]
      else decimal (n div 10) @ [''0123456789'' ! (n mod 10)])"

declare decimal.simps [simp del]

definition GetSource :: "XmlParser \<Rightarrow> string" where
  "GetSource p =
     (if CurrentSource p = [] then ''line '' @ decimal (nat (CurrentLineNumber p))
      else CurrentSource p @ '':'' @ decimal (nat (CurrentLineNumber p)))"

text \<open>
  Modelled from the spec: the reader moving forward (\<open>StreamParser::Advance\<close>) and
  \<open>XmlParser::SkipWhitespace\<close>. \<open>Consume n\<close> takes \<open>n\<close> characters off the input and
  increments the line number "on every \<open>\n\<close> consumed".
\<close>

definition Consume :: "nat \<Rightarrow> XmlParser \<Rightarrow> XmlParser" where
  "Consume n p =
     p\<lparr>Input := drop n (Input p),
       CurrentLineNumber := CurrentLineNumber p
         + int (length (filter (\<lambda>ch. ch = CHR ''\<newline>'') (take n (Input p))))\<rparr>"

definition SkipWhitespace :: "XmlParser \<Rightarrow> XmlParser" where
  "SkipWhitespace p = Consume (length (takeWhile IsWhitespace (Input p))) p"

text \<open>
  Modelled from the spec: the lookahead tests of the parser (\<open>StreamParser::Need\<close> and
  \<open>IsNextEqual\<close>). \<open>starts_with\<close>: the input begins with the marker. \<open>cut_short\<close>: the input
  ends inside the marker. \<open>split_at\<close>: the input up to the first occurrence of the marker
  and the input after it, if the marker occurs.
\<close>

definition starts_with :: "string \<Rightarrow> string \<Rightarrow> bool" where
  "starts_with marker s \<longleftrightarrow> take (length marker) s = marker"

definition cut_short :: "string \<Rightarrow> string \<Rightarrow> bool" where
  "cut_short marker s \<longleftrightarrow> length s < length marker \<and> take (length s) marker = s"

fun split_at :: "string \<Rightarrow> string \<Rightarrow> (string \<times> string) option" where
  "split_at marker [] = (if marker = [] then Some ([], []) else None)"
| "split_at marker (ch # s) =
     (if starts_with marker (ch # s) then Some ([], drop (length marker) (ch # s))
      else (case split_at marker s of
              None \<Rightarrow> None
            | Some (front, back) \<Rightarrow> Some (ch # front, back)))"

text \<open>
  Modelled from the spec: the characters that start a name. The specification speaks of
  "a name-start character" and does not list them; these are the name-start characters
  of XML within ASCII.
\<close>

definition is_name_start :: "char \<Rightarrow> bool" where
  "is_name_start ch \<longleftrightarrow>
     ((65::nat) \<le> of_char ch \<and> of_char ch \<le> (90::nat))
     \<or> ((97::nat) \<le> of_char ch \<and> of_char ch \<le> (122::nat))
     \<or> ch = CHR ''_'' \<or> ch = CHR '':''"

text \<open>
  Modelled from the spec: \<open>XmlParser::OnCloseElement\<close>. The element on top of the stack is
  popped. "If the stack is now just the Document, the top-level parse completes": "the
  Document is returned to the caller and a new Document is prepared for continued
  parsing."
\<close>

definition OnCloseElement :: "XmlParser \<Rightarrow> step_result" where
  "OnCloseElement p =
     (case NodeStack p of
        [] \<Rightarrow> Failed (FormatException ''closing tag without an open element'')
      | (a, el) # [] \<Rightarrow>
          Completed (AppendChild (pCurrentDoc p) (Shared a el))
            (p\<lparr>NodeStack := [], pCurrentDoc := XmlDocument [] [], CurrentState := Idle\<rparr>)
      | (a, el) # (b, parent) # rest \<Rightarrow>
          Continue (p\<lparr>NodeStack := (b, AppendChild parent (Shared a el)) # rest,
                     CurrentState := Idle\<rparr>))"

text \<open>
  Modelled from the spec: a text node for PCDATA or CDATA, which "becomes a Text child of
  the current element", with the source location of the place where it began.
\<close>

definition AddText :: "string \<Rightarrow> string \<Rightarrow> XmlParser \<Rightarrow> step_result" where
  "AddText loc t p =
     (case NodeStack p of
        [] \<Rightarrow> Failed (FormatException ''content outside root element'')
      | (b, parent) # rest \<Rightarrow>
          Continue (p\<lparr>NodeStack :=
                       (b, AppendChild parent (Shared (Fresh p) (XmlText [] loc t))) # rest,
                     Fresh := Fresh p + 1, CurrentState := Idle\<rparr>))"

text \<open>
  Modelled from the spec: "Dispatch from Idle (after skipping inter-node whitespace, which
  is discarded outside any element; whitespace inside an element is captured as PCDATA)",
  with the cases in the order of the specification.
\<close>

definition Dispatch :: "XmlParser \<Rightarrow> step_result" where
  "Dispatch p0 =
     (let p = (if NodeStack p0 = [] then SkipWhitespace p0 else p0); s = Input p in
      if s = [] then Starved p
      else if starts_with ''<!--'' s
        then Continue (Consume 4 p\<lparr>CurrentState := ParsingComment\<rparr>)
      else if starts_with ''<![CDATA['' s
        then Continue (Consume 9 p\<lparr>CurrentState := ParsingCDATA\<rparr>)
      else if starts_with ''<!DOCTYPE'' s
        then Continue (Consume 9 p\<lparr>CurrentState := ParsingDOCTYPE\<rparr>)
      else if starts_with ''<?'' s
        then Continue (Consume 2 p\<lparr>CurrentState := ParsingXMLDeclaration\<rparr>)
      else if starts_with ''</'' s
        then Continue (Consume 2 p\<lparr>CurrentState := ParsingClosingTag\<rparr>)
      else if cut_short ''<!--'' s \<or> cut_short ''<![CDATA['' s \<or> cut_short ''<!DOCTYPE'' s
        then Starved p
      else if hd s = CHR ''<'' then
        (if is_name_start (hd (tl s))
         then Continue (Consume 1 p\<lparr>CurrentState := ParsingOpeningTag\<rparr>)
         else Failed (FormatException ''malformed tag''))
      else if NodeStack p \<noteq> [] then Continue (p\<lparr>CurrentState := ParsingPCDATA\<rparr>)
      else Failed (FormatException ''content outside root element''))"

text \<open>
  Modelled from the spec: \<open>ParseComment\<close> "discards contents through \<open>-->\<close>",
  \<open>ParseXMLDeclaration\<close> "discards through \<open>?>\<close>", and \<open>ParseDOCTYPE\<close> is a "balanced scan:
  tracks \<open>[...]\<close> nesting, terminates at the matching \<open>>\<close>; content discarded".
  \<open>doctype_length\<close> is the number of characters up to and with that \<open>>\<close>.
\<close>

definition ParseComment :: "XmlParser \<Rightarrow> step_result" where
  "ParseComment p =
     (case split_at ''-->'' (Input p) of
        None \<Rightarrow> Starved p
      | Some (body, rest) \<Rightarrow> Continue (Consume (length body + 3) p\<lparr>CurrentState := Idle\<rparr>))"

definition ParseXMLDeclaration :: "XmlParser \<Rightarrow> step_result" where
  "ParseXMLDeclaration p =
     (case split_at ''?>'' (Input p) of
        None \<Rightarrow> Starved p
      | Some (body, rest) \<Rightarrow> Continue (Consume (length body + 2) p\<lparr>CurrentState := Idle\<rparr>))"

fun doctype_length :: "nat \<Rightarrow> string \<Rightarrow> nat option" where
  "doctype_length depth [] = None"
| "doctype_length depth (ch # s) =
     (if ch = CHR ''>'' \<and> depth = 0 then Some 1
      else map_option Suc
        (doctype_length
           (if ch = CHR ''['' then depth + 1 else if ch = CHR '']'' then depth - 1 else depth)
           s))"

definition ParseDOCTYPE :: "XmlParser \<Rightarrow> step_result" where
  "ParseDOCTYPE p =
     (case doctype_length 0 (Input p) of
        None \<Rightarrow> Starved p
      | Some n \<Rightarrow> Continue (Consume n p\<lparr>CurrentState := Idle\<rparr>))"

text \<open>
  Modelled from the spec: \<open>ParseCDATA\<close> ("content through \<open>]]>\<close> becomes a Text child of the
  current element", not entity-decoded) and \<open>ParsePCDATA\<close> ("accumulate characters until
  the next \<open><\<close>. Apply entity de-escaping", the text kept with its whitespace). The
  de-escaping of entities is the parameter \<open>Unescape\<close>, which returns nothing for an
  unknown entity.
\<close>

definition ParseCDATA :: "XmlParser \<Rightarrow> step_result" where
  "ParseCDATA p =
     (case split_at '']]>'' (Input p) of
        None \<Rightarrow> Starved p
      | Some (body, rest) \<Rightarrow> AddText (GetSource p) body (Consume (length body + 3) p))"

definition ParsePCDATA :: "(string \<Rightarrow> string option) \<Rightarrow> XmlParser \<Rightarrow> step_result" where
  "ParsePCDATA Unescape p =
     (case split_at ''<'' (Input p) of
        None \<Rightarrow> Starved p
      | Some (body, rest) \<Rightarrow>
          (case Unescape body of
             None \<Rightarrow> Failed (FormatException ''unrecognized entity reference'')
           | Some t \<Rightarrow> AddText (GetSource p) t (Consume (length body) p)))"

text \<open>
  Modelled from the spec: the opening tag. \<open>ParseOpeningTag\<close>: "Read name chars until
  whitespace, \<open>/\<close>, or \<open>>\<close>. Create a new Element with that LocalName, ... push onto stack."
  \<open>ParseAttributeKey\<close>: "Skip whitespace. If next is \<open>/>\<close>, consume both and pop the element
  (self-closing). If next is \<open>>\<close>, consume and return to Idle. Otherwise parse an attribute
  name up to \<open>=\<close>, trimming surrounding whitespace; empty name is an error."
  \<open>ParseAttributeValueStart\<close>: "Consume \<open>=\<close>, skip optional whitespace, require \<open>"\<close> or \<open>'\<close>
  (record as QuoteChar)". \<open>ParseAttributeValue\<close>: "content up to matching QuoteChar is the
  attribute value, with entity de-escaping applied. Store as (CurrentKey, CurrentValue)
  appended to the element's attributes. Loop." Of two attributes with one name the last
  is kept.
\<close>

definition ParseOpeningTag :: "XmlParser \<Rightarrow> step_result" where
  "ParseOpeningTag p =
     (let name = takeWhile (\<lambda>ch. \<not> IsWhitespace ch \<and> ch \<noteq> CHR ''/'' \<and> ch \<noteq> CHR ''>'')
                   (Input p)
      in if length name = length (Input p) then Starved p
         else Continue (Consume (length name) p
                \<lparr>NodeStack := (Fresh p, XmlElement [] (GetSource p) name []) # NodeStack p,
                 Fresh := Fresh p + 1, CurrentState := ParsingAttributeKey\<rparr>))"

definition trim :: "string \<Rightarrow> string" where
  "trim s = rev (dropWhile IsWhitespace (rev (dropWhile IsWhitespace s)))"

definition ParseAttributeKey :: "XmlParser \<Rightarrow> step_result" where
  "ParseAttributeKey p0 =
     (let p = SkipWhitespace p0; s = Input p in
      if starts_with ''/>'' s then OnCloseElement (Consume 2 p)
      else if starts_with ''>'' s then Continue (Consume 1 p\<lparr>CurrentState := Idle\<rparr>)
      else (case split_at ''='' s of
              None \<Rightarrow> Starved p
            | Some (front, rest) \<Rightarrow>
                if trim front = [] then Failed (FormatException ''empty attribute name'')
                else Continue (Consume (length front) p
                       \<lparr>CurrentKey := trim front,
                        CurrentState := ParsingAttributeValueStart\<rparr>)))"

definition ParseAttributeValueStart :: "XmlParser \<Rightarrow> step_result" where
  "ParseAttributeValueStart p =
     (let s = dropWhile IsWhitespace (drop 1 (Input p)) in
      if s = [] then Starved p
      else if hd s = CHR ''\"'' \<or> hd s = CHR 0x27
        then Continue (Consume (length (Input p) - length s + 1) p
               \<lparr>QuoteChar := hd s, CurrentState := ParsingAttributeValue\<rparr>)
        else Failed (FormatException ''unterminated quoted value''))"

definition SetAttribute :: "XmlNode \<Rightarrow> string \<Rightarrow> string \<Rightarrow> XmlNode" where
  "SetAttribute n key val =
     (case n of
        XmlElement cs loc name attrs \<Rightarrow>
          XmlElement cs loc name
            (filter (\<lambda>a. Name a \<noteq> key) attrs @ [\<lparr>Name = key, Value = val\<rparr>])
      | other \<Rightarrow> other)"

definition ParseAttributeValue :: "(string \<Rightarrow> string option) \<Rightarrow> XmlParser \<Rightarrow> step_result" where
  "ParseAttributeValue Unescape p =
     (case split_at [QuoteChar p] (Input p) of
        None \<Rightarrow> Starved p
      | Some (raw, rest) \<Rightarrow>
          (case Unescape raw of
             None \<Rightarrow> Failed (FormatException ''unrecognized entity reference'')
           | Some val \<Rightarrow>
               (case NodeStack p of
                  [] \<Rightarrow> Failed (FormatException ''attribute outside an element'')
                | (a, el) # rest \<Rightarrow>
                    Continue (Consume (length raw + 1) p
                      \<lparr>NodeStack := (a, SetAttribute el (CurrentKey p) val) # rest,
                       CurrentValue := val, CurrentState := ParsingAttributeKey\<rparr>))))"

text \<open>
  Modelled from the spec: \<open>ParseClosingTag\<close>, "read name up to \<open>>\<close>, compare with
  top-of-stack element's LocalName; mismatch is an error reporting both the expected name
  with its source location and the mismatched name with the current location. Pop."
\<close>

definition ParseClosingTag :: "XmlParser \<Rightarrow> step_result" where
  "ParseClosingTag p =
     (case split_at ''>'' (Input p) of
        None \<Rightarrow> Starved p
      | Some (name, rest) \<Rightarrow>
          (case NodeStack p of
             [] \<Rightarrow> Failed (FormatException ''closing tag without an open element'')
           | (a, el) # stack \<Rightarrow>
               if LocalName el = name then OnCloseElement (Consume (length name + 1) p)
               else Failed (FormatException
                 (''expected </'' @ LocalName el @ ''> (opened at '' @ SourceLocation el
                    @ '') but found </'' @ name @ ''> at '' @ GetSource p))))"

text \<open>
  Modelled from the spec: one step of the state machine, by state. The header has the
  states \<open>Unknown\<close> and \<open>Initializing\<close>, and the specification lists \<open>ParsingTag\<close> and
  \<open>ParsingOpenCloseTagCompletion\<close>, with no transition into or out of any of the four
  described; the machine starts in \<open>Idle\<close> and never enters them.
\<close>

definition step :: "(string \<Rightarrow> string option) \<Rightarrow> XmlParser \<Rightarrow> step_result" where
  "step Unescape p =
     (case CurrentState p of
        Idle \<Rightarrow> Dispatch p
      | ParsingComment \<Rightarrow> ParseComment p
      | ParsingCDATA \<Rightarrow> ParseCDATA p
      | ParsingDOCTYPE \<Rightarrow> ParseDOCTYPE p
      | ParsingXMLDeclaration \<Rightarrow> ParseXMLDeclaration p
      | ParsingClosingTag \<Rightarrow> ParseClosingTag p
      | ParsingOpeningTag \<Rightarrow> ParseOpeningTag p
      | ParsingAttributeKey \<Rightarrow> ParseAttributeKey p
      | ParsingAttributeValueStart \<Rightarrow> ParseAttributeValueStart p
      | ParsingAttributeValue \<Rightarrow> ParseAttributeValue Unescape p
      | ParsingPCDATA \<Rightarrow> ParsePCDATA Unescape p
      | other \<Rightarrow> Failed (FormatException ''no transition from this state''))"

text \<open>
  Modelled from the spec: \<open>XmlParser::PartialParse\<close>, which "runs the state machine until
  the stack collapses to empty (one top-level document completed) and returns that
  Document; returns null if the stream yields no further data without completing one."
  The result is the error, or the document (or null) with the parser after the call. The
  loop \<open>run\<close> counts its steps down and has no result when none is left; \<open>PartialParse\<close>
  gives it three steps for every character of the input and three more, which is more
  than it takes (\<open>PartialParse_returns\<close> below).
\<close>

fun run ::
  "(string \<Rightarrow> string option) \<Rightarrow> nat \<Rightarrow> XmlParser
     \<Rightarrow> (error + (XmlNode option \<times> XmlParser)) option" where
  "run Unescape 0 p = None"
| "run Unescape (Suc fuel) p =
     (case step Unescape p of
        Continue p' \<Rightarrow> run Unescape fuel p'
      | Completed doc p' \<Rightarrow> Some (Inr (Some doc, p'))
      | Starved p' \<Rightarrow> Some (Inr (None, p'))
      | Failed e \<Rightarrow> Some (Inl e))"

definition PartialParse ::
  "(string \<Rightarrow> string option) \<Rightarrow> XmlParser
     \<Rightarrow> (error + (XmlNode option \<times> XmlParser)) option" where
  "PartialParse Unescape p = run Unescape (3 * length (Input p) + 3) p"

subsection \<open>Invariant and progress of the machine\<close>

text \<open>
  \<open>parser_inv\<close>: between two steps the document in progress is empty and the stack holds
  elements only. \<open>good\<close> says of the result of a step that the parser it leaves has the
  invariant and that a completed document has one child, an element. \<open>potential\<close> is a
  number that every step that goes on makes smaller: three for each character of the
  input, and one or two more by state, two where the next step may consume nothing.
  \<open>decreases\<close> says so of the result of a step.
\<close>

definition parser_inv :: "XmlParser \<Rightarrow> bool" where
  "parser_inv p \<longleftrightarrow>
     pCurrentDoc p = XmlDocument [] [] \<and> list_all (\<lambda>e. IsElement (snd e)) (NodeStack p)"

fun good :: "step_result \<Rightarrow> bool" where
  "good (Continue p') = parser_inv p'"
| "good (Completed doc p') =
     (parser_inv p' \<and> (\<exists>a el. doc = XmlDocument [Shared a el] [] \<and> IsElement el))"
| "good (Starved p') = parser_inv p'"
| "good (Failed e) = True"

definition weight :: "XmlParser \<Rightarrow> nat" where
  "weight p =
     (case CurrentState p of
        Idle \<Rightarrow> (if Input p \<noteq> [] \<and> hd (Input p) \<noteq> CHR ''<'' then 2 else 1)
      | ParsingPCDATA \<Rightarrow> (if Input p \<noteq> [] \<and> hd (Input p) \<noteq> CHR ''<'' then 1 else 2)
      | ParsingOpeningTag \<Rightarrow> 2
      | other \<Rightarrow> 1)"

definition potential :: "XmlParser \<Rightarrow> nat" where
  "potential p = 3 * length (Input p) + weight p"

fun decreases :: "XmlParser \<Rightarrow> step_result \<Rightarrow> bool" where
  "decreases p (Continue p') = (potential p' < potential p)"
| "decreases p r = True"

section \<open>Scalars\<close>

lemma toupper_code:
  "(of_char (toupper c) :: nat) =
     (if (97::nat) \<le> of_char c \<and> of_char c \<le> (122::nat) then of_char c - 32 else of_char c)"
  by (auto simp add: toupper_def)

lemma char_eq_code: "c = d \<longleftrightarrow> (of_char c :: nat) = of_char d"
  by simp

lemma is_numeric_char_code:
  "is_numeric_char c \<longleftrightarrow>
     (of_char c :: nat) \<in> {43, 45, 46, 48, 49, 50, 51, 52, 53, 54, 55, 56, 57, 69, 101}"
proof -
  define n :: nat where "n = of_char c"
  have "is_numeric_char c \<longleftrightarrow>
    (48 \<le> n \<and> n \<le> 57) \<or> (if 97 \<le> n \<and> n \<le> 122 then n - 32 else n) = 69
      \<or> (if 97 \<le> n \<and> n \<le> 122 then n - 32 else n) = 46 \<or> n = 43 \<or> n = 45"
    unfolding is_numeric_char_def char_eq_code [of "toupper c"] char_eq_code [of c]
      toupper_code n_def
    by simp
  also have "\<dots> \<longleftrightarrow> n \<in> {43, 45, 46, 48, 49, 50, 51, 52, 53, 54, 55, 56, 57, 69, 101}"
    by (simp; arith)
  finally show ?thesis by (simp add: n_def)
qed

lemma is_numeric_char_iff: "is_numeric_char c \<longleftrightarrow> c \<in> set ''-+0123456789.eE''"
  unfolding is_numeric_char_code
  by (simp add: char_eq_code [of c]) blast

lemma ToJsonValue_loop_all:
  "ToJsonValue_loop Escape content rest =
     (if list_all is_numeric_char rest then content else quoted Escape content)"
  by (induction rest) simp_all

lemma ToJsonValue_eq:
  "ToJsonValue Escape content Unquote =
     (if Unquote \<and> set content \<subseteq> set ''-+0123456789.eE'' then content
      else quoted Escape content)"
proof -
  have "list_all is_numeric_char content \<longleftrightarrow> set content \<subseteq> set ''-+0123456789.eE''"
    unfolding list_all_iff subset_iff is_numeric_char_iff by blast
  then show ?thesis
    by (simp add: ToJsonValue_def ToJsonValue_loop_all)
qed

text \<open>
  What \<open>ToJson\<close> writes for a scalar: \<open>Content\<close> quoted and escaped, unless
  \<open>UnquoteNumbers\<close> is set and the loop finds no character other than
  \<open>-+0123456789.eE\<close>, and then \<open>Content\<close> as it is. For every \<open>Content\<close> that is not
  empty this is the pattern of the specification.
\<close>

lemma ToJson_scalar:
  "ToJson Escape Options (YamlScalar t s c) =
     (if UnquoteNumbers Options \<and> set c \<subseteq> set ''-+0123456789.eE'' then c
      else ''\"'' @ Escape c @ ''\"'')"
  by (simp add: ToJsonValue_eq quoted_def)

lemma ToJson_scalar_nonempty:
  "c \<noteq> [] \<Longrightarrow>
     ToJson Escape Options (YamlScalar t s c) =
       (if UnquoteNumbers Options \<and> matches_numeric_regex c then c
        else ''\"'' @ Escape c @ ''\"'')"
  by (simp add: ToJsonValue_eq quoted_def matches_numeric_regex_def)

text \<open>
  C8. With \<open>UnquoteNumbers\<close> set, a scalar whose \<open>Content\<close> is the empty string is written
  as the empty string, without quotes: the loop over its characters finds none that is
  not numeric. The result is not the quoted empty string.
\<close>

theorem ToJson_empty_scalar_unquoted:
  "ToJson Escape (Options\<lparr>UnquoteNumbers := True\<rparr>) (YamlScalar t s []) = []
   \<and> ToJson Escape (Options\<lparr>UnquoteNumbers := True\<rparr>) (YamlScalar t s []) \<noteq> ''\"\"''"
  by (simp add: ToJsonValue_def)

text \<open>
  C2. A scalar is to be written quoted and escaped unless \<open>UnquoteNumbers\<close> is set and
  \<open>Content\<close> matches \<open>^[-+0-9.eE]+$\<close>. The empty \<open>Content\<close> does not match the pattern, and
  it is no number; but the loop of \<open>ToJsonValue\<close>, which has no test for a \<open>Content\<close>
  without characters, takes it for entirely numeric. With \<open>UnquoteNumbers\<close> the empty
  scalar is written as nothing at all, where the quoted form is two double quotes
  around the escaped \<open>Content\<close>.
\<close>

theorem ToJson_scalar_empty_not_quoted:
  "\<not> matches_numeric_regex []
   \<and> ToJson Escape (Options\<lparr>UnquoteNumbers := True\<rparr>) (YamlScalar t s []) = []
   \<and> ToJson Escape (Options\<lparr>UnquoteNumbers := True\<rparr>) (YamlScalar t s [])
       \<noteq> ''\"'' @ Escape [] @ ''\"''"
  by (simp add: ToJsonValue_def matches_numeric_regex_def)

section \<open>Sequences and mappings\<close>

lemma Value_json_eq:
  "Value_json Escape Options p ret =
     ret @ (case p of nullptr \<Rightarrow> ''null'' | Ptr a n \<Rightarrow> ToJson Escape Options n)"
  by (cases p) simp_all

lemma Key_json_eq:
  "Key_json Escape Options p ret =
     ret @ (case p of nullptr \<Rightarrow> ''\"\"'' | Ptr a n \<Rightarrow> ToJson Escape Options n)"
  by (cases p) simp_all

lemma AddIndent_eq: "AddIndent Options ret = ret @ AddIndent Options []"
  by (simp add: AddIndent_def)

text \<open>
  The indentation of the children: one tab more than \<open>Indentation\<close> says, and no tab
  when \<open>Indentation\<close> is the largest \<open>int\<close>, whose increment is the smallest.
\<close>

lemma sint_max: "sint (x :: 32 word) = 2147483647 \<Longrightarrow> x = 2147483647"
proof -
  assume h: "sint x = 2147483647"
  have "x = of_int (sint x)" by simp
  also have "\<dots> = 2147483647" by (simp only: h) simp
  finally show ?thesis .
qed

lemma sint_succ:
  "sint (x + 1 :: 32 word) = (if sint x = 2147483647 then - 2147483648 else sint x + 1)"
proof (cases "sint x = 2147483647")
  case True
  from sint_max [OF True] show ?thesis by simp
next
  case False
  have "- 2147483648 \<le> sint x" "sint x < 2147483648"
    using sint_ge [of x] sint_lt [of x] by simp_all
  with False have "- (2 ^ 31) \<le> sint x + 1" "sint x + 1 < 2 ^ 31" by simp_all
  then have "signed_take_bit 31 (sint x + 1) = sint x + 1"
    by (rule signed_take_bit_int_eq_self)
  with False show ?thesis by (simp add: sint_word_add)
qed

lemma AddIndent_children:
  "AddIndent (Options\<lparr>Indentation := Indentation Options + 1\<rparr>) [] =
     (if sint (Indentation Options) = 2147483647 then []
      else replicate (nat (sint (Indentation Options) + 1)) (CHR 0x09))"
  by (simp add: AddIndent_def sint_succ)

lemma joined_Cons:
  "joined sep (x # xs) = x @ (if xs = [] then [] else sep @ joined sep xs)"
  by (cases xs) simp_all

lemma Entries_loop_eq:
  "Entries_loop Escape Options es ret First =
     ret @ (if es = [] then [] else (if First then [] else '',\<newline>'') @
       joined '',\<newline>'' (map (\<lambda>p. AddIndent Options [] @
         (case p of nullptr \<Rightarrow> ''null'' | Ptr a n \<Rightarrow> ToJson Escape Options n)) es))"
proof (induction es arbitrary: ret First)
  case Nil
  show ?case by simp
next
  case (Cons p es)
  show ?case
    by (simp add: Cons.IH Let_def Value_json_eq AddIndent_eq [of Options "_ @ _"]
          AddIndent_eq [of Options ret] joined_Cons del: joined.simps)
qed

lemma Map_loop_eq:
  "Map_loop Escape Options m ret First =
     ret @ (if m = [] then [] else (if First then [] else '',\<newline>'') @
       joined '',\<newline>'' (map (\<lambda>(k, v). AddIndent Options [] @
         (case k of nullptr \<Rightarrow> ''\"\"'' | Ptr a n \<Rightarrow> ToJson Escape Options n) @ '': '' @
         (case v of nullptr \<Rightarrow> ''null'' | Ptr a n \<Rightarrow> ToJson Escape Options n)) m))"
proof (induction m arbitrary: ret First)
  case Nil
  show ?case by simp
next
  case (Cons kvp m)
  obtain k v where kvp: "kvp = (k, v)" by (cases kvp)
  show ?case
    by (simp add: kvp Cons.IH Let_def Value_json_eq Key_json_eq
          AddIndent_eq [of Options "_ @ _"] AddIndent_eq [of Options ret] joined_Cons
          del: joined.simps)
qed

lemma sequence_text:
  "ToJson Escape Options (YamlSequence t s es) =
     ''[\<newline>'' @
     joined '',\<newline>''
       (map (\<lambda>p. AddIndent (Options\<lparr>Indentation := Indentation Options + 1\<rparr>) [] @
          (case p of nullptr \<Rightarrow> ''null''
           | Ptr a n \<Rightarrow> ToJson Escape (Options\<lparr>Indentation := Indentation Options + 1\<rparr>) n)) es) @
     ''\<newline>'' @ AddIndent Options [] @ '']''"
  by (simp add: Let_def Entries_loop_eq AddIndent_eq [of Options "_ @ _"]
        AddIndent_eq [of Options "_ # _"])

lemma mapping_text:
  "ToJson Escape Options (YamlMapping t s m) =
     ''{\<newline>'' @
     joined '',\<newline>''
       (map (\<lambda>(k, v). AddIndent (Options\<lparr>Indentation := Indentation Options + 1\<rparr>) [] @
          (case k of nullptr \<Rightarrow> ''\"\"''
           | Ptr a n \<Rightarrow> ToJson Escape (Options\<lparr>Indentation := Indentation Options + 1\<rparr>) n) @
          '': '' @
          (case v of nullptr \<Rightarrow> ''null''
           | Ptr a n \<Rightarrow> ToJson Escape (Options\<lparr>Indentation := Indentation Options + 1\<rparr>) n)) m) @
     ''\<newline>'' @ AddIndent Options [] @ ''}''"
  by (simp add: Let_def Map_loop_eq AddIndent_eq [of Options "_ @ _"]
        AddIndent_eq [of Options "_ # _"])

text \<open>
  With \<open>Indentation\<close> the largest \<open>int\<close>, the increment gives the smallest and the
  items are written with no tab in front; the closing bracket has the 2147483647 tabs of
  the level itself.
\<close>

lemma ToJson_at_largest_int:
  "ToJson Escape \<lparr>Indentation = 2147483647, UnquoteNumbers = u\<rparr>
       (YamlSequence t s [nullptr, nullptr]) =
     ''[\<newline>null,\<newline>null\<newline>'' @ replicate 2147483647 (CHR 0x09) @ '']''
   \<and> ToJson Escape \<lparr>Indentation = 2147483647, UnquoteNumbers = u\<rparr>
       (YamlMapping t s [(nullptr, nullptr)]) =
     ''{\<newline>\"\": null\<newline>'' @ replicate 2147483647 (CHR 0x09) @ ''}''"
  by (simp add: sequence_text mapping_text AddIndent_def)

text \<open>
  C4. \<open>YamlMapping::ToJson\<close> writes an opening brace and a line feed, the pairs of the
  mapping in iteration order with a comma and a line feed between two pairs, a line feed,
  the indentation and a closing brace. A pair is the indentation of the next level, the
  key, a colon and a space, and the value. A null key is written as two double quotes.
  The equation holds for every \<open>Options\<close>: \<open>Indentation + 1\<close> is the increment of a word
  of 32 bits, and \<open>AddIndent\<close> writes no tab for a negative \<open>Indentation\<close>.
\<close>

theorem ToJson_mapping:
  "ToJson Escape Options (YamlMapping t s m) =
     ''{\<newline>'' @
     joined '',\<newline>''
       (map (\<lambda>(k, v). AddIndent (Options\<lparr>Indentation := Indentation Options + 1\<rparr>) [] @
          (case k of nullptr \<Rightarrow> ''\"\"''
           | Ptr a n \<Rightarrow> ToJson Escape (Options\<lparr>Indentation := Indentation Options + 1\<rparr>) n) @
          '': '' @
          (case v of nullptr \<Rightarrow> ''null''
           | Ptr a n \<Rightarrow> ToJson Escape (Options\<lparr>Indentation := Indentation Options + 1\<rparr>) n)) m) @
     ''\<newline>'' @ AddIndent Options [] @ ''}''"
  by (rule mapping_text)

text \<open>
  C9. A null entry of a sequence is written as the four letters \<open>null\<close>, without quotes
  (first equation). In a mapping a null value is written as \<open>null\<close> as well, next to a
  key that is not null and next to one that is; two double quotes are written for a null
  key only (second equation: the pairs of a mapping one by one, each with the four cases
  of its two pointers). Both equations hold for every \<open>Options\<close>, with \<open>Indentation + 1\<close>
  the increment of a word of 32 bits.
\<close>

theorem ToJson_null_entries:
  "ToJson Escape Options (YamlSequence t s es) =
     ''[\<newline>'' @
     joined '',\<newline>''
       (map (\<lambda>p. AddIndent (Options\<lparr>Indentation := Indentation Options + 1\<rparr>) [] @
          (case p of nullptr \<Rightarrow> ''null''
           | Ptr a n \<Rightarrow> ToJson Escape (Options\<lparr>Indentation := Indentation Options + 1\<rparr>) n)) es) @
     ''\<newline>'' @ AddIndent Options [] @ '']''
   \<and> ToJson Escape Options (YamlMapping t s m) =
     ''{\<newline>'' @
     joined '',\<newline>''
       (map (\<lambda>kvp. AddIndent (Options\<lparr>Indentation := Indentation Options + 1\<rparr>) [] @
          (case kvp of
             (nullptr, nullptr) \<Rightarrow> ''\"\": null''
           | (nullptr, Ptr b v) \<Rightarrow>
               ''\"\": '' @ ToJson Escape (Options\<lparr>Indentation := Indentation Options + 1\<rparr>) v
           | (Ptr a k, nullptr) \<Rightarrow>
               ToJson Escape (Options\<lparr>Indentation := Indentation Options + 1\<rparr>) k @ '': null''
           | (Ptr a k, Ptr b v) \<Rightarrow>
               ToJson Escape (Options\<lparr>Indentation := Indentation Options + 1\<rparr>) k @ '': '' @
               ToJson Escape (Options\<lparr>Indentation := Indentation Options + 1\<rparr>) v)) m) @
     ''\<newline>'' @ AddIndent Options [] @ ''}''"
proof -
  have "(\<lambda>(k, v). AddIndent (Options\<lparr>Indentation := Indentation Options + 1\<rparr>) [] @
          (case k of nullptr \<Rightarrow> ''\"\"''
           | Ptr a n \<Rightarrow> ToJson Escape (Options\<lparr>Indentation := Indentation Options + 1\<rparr>) n) @
          '': '' @
          (case v of nullptr \<Rightarrow> ''null''
           | Ptr a n \<Rightarrow> ToJson Escape (Options\<lparr>Indentation := Indentation Options + 1\<rparr>) n))
      = (\<lambda>kvp. AddIndent (Options\<lparr>Indentation := Indentation Options + 1\<rparr>) [] @
          (case kvp of
             (nullptr, nullptr) \<Rightarrow> ''\"\": null''
           | (nullptr, Ptr b v) \<Rightarrow>
               ''\"\": '' @ ToJson Escape (Options\<lparr>Indentation := Indentation Options + 1\<rparr>) v
           | (Ptr a k, nullptr) \<Rightarrow>
               ToJson Escape (Options\<lparr>Indentation := Indentation Options + 1\<rparr>) k @ '': null''
           | (Ptr a k, Ptr b v) \<Rightarrow>
               ToJson Escape (Options\<lparr>Indentation := Indentation Options + 1\<rparr>) k @ '': '' @
               ToJson Escape (Options\<lparr>Indentation := Indentation Options + 1\<rparr>) v))"
    by (rule ext) (simp split: prod.split unique_ptr.split)
  then show ?thesis
    by (simp only: sequence_text mapping_text simp_thms)
qed

section \<open>DeepCopy\<close>

text \<open>
  C10. \<open>DeepCopy\<close> returns a pointer that is not null, to a node with the \<open>Tag\<close> and the
  \<open>Source\<close> of the node copied, for a scalar, a sequence and a mapping alike and whatever
  the container does with the pairs.
\<close>

theorem DeepCopy_Tag_Source:
  "\<exists>n'. fst (DeepCopy place n fresh) = Ptr fresh n' \<and> Tag n' = Tag n \<and> Source n' = Source n"
  by (cases n) (simp_all add: assign_base_def Let_def split_beta)

subsection \<open>The text depends on the tree only\<close>

lemma ToJson_strip_all:
  "(\<forall>Options. ToJson Escape Options (strip n) = ToJson Escape Options n) \<and>
   (\<forall>Options ret. Value_json Escape Options (strip_ptr p) ret = Value_json Escape Options p ret
      \<and> Key_json Escape Options (strip_ptr p) ret = Key_json Escape Options p ret) \<and>
   (\<forall>Options ret First. Entries_loop Escape Options (strip_Entries es) ret First
      = Entries_loop Escape Options es ret First) \<and>
   (\<forall>Options ret. KVP_json Escape Options (strip_KVP kvp) ret = KVP_json Escape Options kvp ret) \<and>
   (\<forall>Options ret First. Map_loop Escape Options (strip_Map m) ret First
      = Map_loop Escape Options m ret First)"
  by (rule strip_strip_Entries_strip_Map_strip_KVP_strip_ptr.induct
        [where ?P1.0 = "\<lambda>n. \<forall>Options. ToJson Escape Options (strip n) = ToJson Escape Options n"
           and ?P2.0 = "\<lambda>p. \<forall>Options ret.
              Value_json Escape Options (strip_ptr p) ret = Value_json Escape Options p ret
              \<and> Key_json Escape Options (strip_ptr p) ret = Key_json Escape Options p ret"
           and ?P3.0 = "\<lambda>es. \<forall>Options ret First.
              Entries_loop Escape Options (strip_Entries es) ret First
                = Entries_loop Escape Options es ret First"
           and ?P4.0 = "\<lambda>kvp. \<forall>Options ret.
              KVP_json Escape Options (strip_KVP kvp) ret = KVP_json Escape Options kvp ret"
           and ?P5.0 = "\<lambda>m. \<forall>Options ret First.
              Map_loop Escape Options (strip_Map m) ret First
                = Map_loop Escape Options m ret First"])
     (simp_all add: Let_def)

lemma ToJson_strip: "ToJson Escape Options (strip n) = ToJson Escape Options n"
  using ToJson_strip_all by blast

lemma same_strip_ToJson:
  "strip n' = strip n \<Longrightarrow> ToJson Escape Options n' = ToJson Escape Options n"
  by (metis ToJson_strip)

subsection \<open>The container\<close>

lemma Map_find_Cons:
  "Map_find (kvp # m) key = (if ptr_eq (fst kvp) key then Some kvp else Map_find m key)"
  by (simp add: Map_find_def)

lemma Map_find_Nil: "Map_find [] key = None"
  by (simp add: Map_find_def)

lemma ptr_eq_nullptr: "ptr_eq p nullptr \<longleftrightarrow> p = nullptr"
  by (cases p) simp_all

lemma ptr_eq_Ptr: "ptr_eq p (Ptr a x) \<longleftrightarrow> (\<exists>y. p = Ptr a y)"
  by (cases p) auto

lemma Map_find_Some:
  "Map_find m key = Some it \<Longrightarrow> it \<in> set m \<and> ptr_eq (fst it) key"
  by (auto simp add: Map_find_def find_Some_iff)

lemma Map_find_None: "Map_find m key = None \<longleftrightarrow> (\<forall>it \<in> set m. \<not> ptr_eq (fst it) key)"
  by (auto simp add: Map_find_def find_None_iff)

lemma Map_find_placed:
  assumes "mset r = add_mset kvp (mset m)"
  shows "Map_find r key = None \<longleftrightarrow> Map_find m key = None \<and> \<not> ptr_eq (fst kvp) key"
proof -
  from assms have "set_mset (mset r) = set_mset (add_mset kvp (mset m))" by simp
  then have "set r = insert kvp (set m)" by simp
  then show ?thesis by (auto simp add: Map_find_None)
qed

lemma Map_insert_absent:
  "Map_find m (fst kvp) = None \<Longrightarrow> Map_insert place kvp m = place kvp m"
  by (simp add: Map_insert_def)

lemma unordered_Entries_append:
  "unordered_Entries (xs @ ys) = unordered_Entries xs @ unordered_Entries ys"
  by (induction xs) simp_all

lemma unordered_Map_map: "unordered_Map m = map unordered_KVP m"
  by (induction m) simp_all

lemma mset_short:
  assumes "mset xs = mset ys" and "length ys \<le> 1"
  shows "xs = ys"
proof (cases ys)
  case Nil
  with assms(1) show ?thesis by simp
next
  case (Cons y zs)
  with assms(2) have "ys = [y]" by simp
  with assms(1) show ?thesis by simp
qed

subsection \<open>A copy has the pairs of the original\<close>

text \<open>
  One round of the loop of \<open>YamlMapping::DeepCopy\<close>, in any container that keeps its
  pairs and adds the one inserted. The pairs copied so far have keys below the allocation
  counter, and a null key among them only if the pairs still to be copied have none; so
  the copy of the next pair is inserted, wherever the container puts it.
\<close>

lemma DeepCopy_Map_step:
  assumes container: "\<And>kvp m. Map_find m (fst kvp) = None \<Longrightarrow>
          mset (place kvp m) = add_mset kvp (mset m)"
    and kvp: "unordered_KVP (fst (DeepCopy_KVP place kvp fresh)) = unordered_KVP kvp"
      "fresh \<le> snd (DeepCopy_KVP place kvp fresh)"
      "fst kvp = nullptr \<longrightarrow> fst (fst (DeepCopy_KVP place kvp fresh)) = nullptr"
      "fst kvp \<noteq> nullptr \<longrightarrow> ptr_eq (fst (fst (DeepCopy_KVP place kvp fresh))) (Ptr fresh x0)
          \<and> fresh < snd (DeepCopy_KVP place kvp fresh)"
    and IH: "\<And>pairs fresh. well_formed_Map rest \<Longrightarrow> keys_unique rest \<Longrightarrow>
          (\<forall>a x. fresh \<le> a \<longrightarrow> Map_find pairs (Ptr a x) = None) \<Longrightarrow>
          (Map_find pairs nullptr \<noteq> None \<longrightarrow> Map_find rest nullptr = None) \<Longrightarrow>
          mset (unordered_Map (fst (DeepCopy_Map place rest pairs fresh)))
            = mset (unordered_Map pairs) + mset (unordered_Map rest)
          \<and> fresh \<le> snd (DeepCopy_Map place rest pairs fresh)"
    and wf: "well_formed_Map rest" "keys_unique (kvp # rest)"
    and below: "\<forall>a x. fresh \<le> a \<longrightarrow> Map_find pairs (Ptr a x) = None"
    and null: "Map_find pairs nullptr \<noteq> None \<longrightarrow> Map_find (kvp # rest) nullptr = None"
  shows "mset (unordered_Map (fst (DeepCopy_Map place (kvp # rest) pairs fresh)))
           = mset (unordered_Map pairs) + mset (unordered_Map (kvp # rest))
         \<and> fresh \<le> snd (DeepCopy_Map place (kvp # rest) pairs fresh)"
proof -
  obtain kvp' fresh' where r: "DeepCopy_KVP place kvp fresh = (kvp', fresh')"
    by (cases "DeepCopy_KVP place kvp fresh")
  have s: "unordered_KVP kvp' = unordered_KVP kvp" and le: "fresh \<le> fresh'"
    using kvp(1,2) r by simp_all
  have knull: "fst kvp = nullptr \<Longrightarrow> fst kvp' = nullptr"
    using kvp(3) r by simp
  have kptr: "fst kvp \<noteq> nullptr \<Longrightarrow> (\<exists>y. fst kvp' = Ptr fresh y) \<and> fresh < fresh'"
    using kvp(4) r by (simp add: ptr_eq_Ptr)
  have absent: "Map_find pairs (fst kvp') = None"
  proof (cases "fst kvp = nullptr")
    case True
    then have "Map_find (kvp # rest) nullptr \<noteq> None" by (simp add: Map_find_Cons)
    with null have "Map_find pairs nullptr = None" by blast
    with knull [OF True] show ?thesis by simp
  next
    case False
    from kptr [OF False] obtain y where "fst kvp' = Ptr fresh y" by blast
    with below show ?thesis by simp
  qed
  have placed: "mset (place kvp' pairs) = add_mset kvp' (mset pairs)"
    by (rule container [OF absent])
  have ins: "Map_insert place kvp' pairs = place kvp' pairs"
    by (rule Map_insert_absent [OF absent])
  have below': "\<forall>a x. fresh' \<le> a \<longrightarrow> Map_find (place kvp' pairs) (Ptr a x) = None"
  proof (intro allI impI)
    fix a x assume a: "fresh' \<le> a"
    with le below have 1: "Map_find pairs (Ptr a x) = None" by simp
    have 2: "\<not> ptr_eq (fst kvp') (Ptr a x)"
    proof (cases "fst kvp = nullptr")
      case True
      with knull show ?thesis by simp
    next
      case False
      from kptr [OF False] a show ?thesis by auto
    qed
    show "Map_find (place kvp' pairs) (Ptr a x) = None"
      by (simp add: Map_find_placed [OF placed] 1 2)
  qed
  have null': "Map_find (place kvp' pairs) nullptr \<noteq> None \<longrightarrow> Map_find rest nullptr = None"
  proof
    assume h: "Map_find (place kvp' pairs) nullptr \<noteq> None"
    show "Map_find rest nullptr = None"
    proof (cases "Map_find pairs nullptr = None")
      case False
      with null have "Map_find (kvp # rest) nullptr = None" by blast
      then show ?thesis by (simp add: Map_find_Cons split: if_splits)
    next
      case True
      with h have "fst kvp' = nullptr"
        by (simp add: Map_find_placed [OF placed] ptr_eq_nullptr)
      with kptr have "fst kvp = nullptr" by auto
      with wf(2) show ?thesis by simp
    qed
  qed
  have ku: "keys_unique rest" using wf(2) by simp
  from IH [OF wf(1) ku below' null']
  have "mset (unordered_Map (fst (DeepCopy_Map place rest (place kvp' pairs) fresh')))
          = mset (unordered_Map (place kvp' pairs)) + mset (unordered_Map rest)"
    and "fresh' \<le> snd (DeepCopy_Map place rest (place kvp' pairs) fresh')"
    by blast+
  moreover have "mset (unordered_Map (place kvp' pairs))
      = add_mset (unordered_KVP kvp') (mset (unordered_Map pairs))"
    by (simp add: unordered_Map_map placed)
  ultimately show ?thesis
    using s le by (simp add: r ins)
qed

text \<open>
  The copy of a well-formed tree is the same tree at new addresses, up to the order of
  the pairs of each mapping: by induction over the tree, with one statement for each of
  the five functions.
\<close>

lemma DeepCopy_unordered_all:
  assumes container: "\<And>kvp m. Map_find m (fst kvp) = None \<Longrightarrow>
          mset (place kvp m) = add_mset kvp (mset m)"
  shows
  "(\<forall>fresh. well_formed n \<longrightarrow>
      unordered_ptr (fst (DeepCopy place n fresh)) = Some (unordered_of n)
      \<and> ptr_eq (fst (DeepCopy place n fresh)) (Ptr fresh n)
      \<and> fresh < snd (DeepCopy place n fresh)) \<and>
   (\<forall>fresh. well_formed_ptr p \<longrightarrow>
      unordered_ptr (fst (DeepCopy_ptr place p fresh)) = unordered_ptr p
      \<and> fresh \<le> snd (DeepCopy_ptr place p fresh)
      \<and> (p = nullptr \<longrightarrow> fst (DeepCopy_ptr place p fresh) = nullptr)
      \<and> (p \<noteq> nullptr \<longrightarrow> ptr_eq (fst (DeepCopy_ptr place p fresh)) (Ptr fresh undefined)
            \<and> fresh < snd (DeepCopy_ptr place p fresh))) \<and>
   (\<forall>entries fresh. well_formed_Entries es \<longrightarrow>
      unordered_Entries (fst (DeepCopy_Entries place es entries fresh))
        = unordered_Entries entries @ unordered_Entries es
      \<and> fresh \<le> snd (DeepCopy_Entries place es entries fresh)) \<and>
   (\<forall>fresh. well_formed_KVP kvp \<longrightarrow>
      unordered_KVP (fst (DeepCopy_KVP place kvp fresh)) = unordered_KVP kvp
      \<and> fresh \<le> snd (DeepCopy_KVP place kvp fresh)
      \<and> (fst kvp = nullptr \<longrightarrow> fst (fst (DeepCopy_KVP place kvp fresh)) = nullptr)
      \<and> (fst kvp \<noteq> nullptr \<longrightarrow>
            ptr_eq (fst (fst (DeepCopy_KVP place kvp fresh))) (Ptr fresh undefined)
            \<and> fresh < snd (DeepCopy_KVP place kvp fresh))) \<and>
   (\<forall>pairs fresh. well_formed_Map m \<longrightarrow> keys_unique m \<longrightarrow>
      (\<forall>a x. fresh \<le> a \<longrightarrow> Map_find pairs (Ptr a x) = None) \<longrightarrow>
      (Map_find pairs nullptr \<noteq> None \<longrightarrow> Map_find m nullptr = None) \<longrightarrow>
      mset (unordered_Map (fst (DeepCopy_Map place m pairs fresh)))
        = mset (unordered_Map pairs) + mset (unordered_Map m)
      \<and> fresh \<le> snd (DeepCopy_Map place m pairs fresh))"
proof -
  let ?node = "\<lambda>n. \<forall>fresh. well_formed n \<longrightarrow>
      unordered_ptr (fst (DeepCopy place n fresh)) = Some (unordered_of n)
      \<and> ptr_eq (fst (DeepCopy place n fresh)) (Ptr fresh n)
      \<and> fresh < snd (DeepCopy place n fresh)"
  let ?ptr = "\<lambda>p. \<forall>fresh. well_formed_ptr p \<longrightarrow>
      unordered_ptr (fst (DeepCopy_ptr place p fresh)) = unordered_ptr p
      \<and> fresh \<le> snd (DeepCopy_ptr place p fresh)
      \<and> (p = nullptr \<longrightarrow> fst (DeepCopy_ptr place p fresh) = nullptr)
      \<and> (p \<noteq> nullptr \<longrightarrow> ptr_eq (fst (DeepCopy_ptr place p fresh)) (Ptr fresh undefined)
            \<and> fresh < snd (DeepCopy_ptr place p fresh))"
  let ?entries = "\<lambda>es. \<forall>entries fresh. well_formed_Entries es \<longrightarrow>
      unordered_Entries (fst (DeepCopy_Entries place es entries fresh))
        = unordered_Entries entries @ unordered_Entries es
      \<and> fresh \<le> snd (DeepCopy_Entries place es entries fresh)"
  let ?kvp = "\<lambda>kvp. \<forall>fresh. well_formed_KVP kvp \<longrightarrow>
      unordered_KVP (fst (DeepCopy_KVP place kvp fresh)) = unordered_KVP kvp
      \<and> fresh \<le> snd (DeepCopy_KVP place kvp fresh)
      \<and> (fst kvp = nullptr \<longrightarrow> fst (fst (DeepCopy_KVP place kvp fresh)) = nullptr)
      \<and> (fst kvp \<noteq> nullptr \<longrightarrow>
            ptr_eq (fst (fst (DeepCopy_KVP place kvp fresh))) (Ptr fresh undefined)
            \<and> fresh < snd (DeepCopy_KVP place kvp fresh))"
  let ?map = "\<lambda>m. \<forall>pairs fresh. well_formed_Map m \<longrightarrow> keys_unique m \<longrightarrow>
      (\<forall>a x. fresh \<le> a \<longrightarrow> Map_find pairs (Ptr a x) = None) \<longrightarrow>
      (Map_find pairs nullptr \<noteq> None \<longrightarrow> Map_find m nullptr = None) \<longrightarrow>
      mset (unordered_Map (fst (DeepCopy_Map place m pairs fresh)))
        = mset (unordered_Map pairs) + mset (unordered_Map m)
      \<and> fresh \<le> snd (DeepCopy_Map place m pairs fresh)"
  have "?node n \<and> ?ptr p \<and> ?entries es \<and> ?kvp kvp \<and> ?map m"
  proof (rule strip_strip_Entries_strip_Map_strip_KVP_strip_ptr.induct
           [where ?P1.0 = ?node and ?P2.0 = ?ptr and ?P3.0 = ?entries and ?P4.0 = ?kvp
              and ?P5.0 = ?map])
    fix t s c
    show "?node (YamlScalar t s c)" by simp
  next
    fix t s es
    assume IH: "?entries es"
    show "?node (YamlSequence t s es)"
    proof (intro allI impI)
      fix a0 assume "well_formed (YamlSequence t s es)"
      then have wf: "well_formed_Entries es" by simp
      from IH wf
      have "unordered_Entries (fst (DeepCopy_Entries place es [] (a0 + 1)))
          = unordered_Entries es"
        and "a0 + 1 \<le> snd (DeepCopy_Entries place es [] (a0 + 1))"
        by simp_all
      then show "unordered_ptr (fst (DeepCopy place (YamlSequence t s es) a0))
            = Some (unordered_of (YamlSequence t s es))
          \<and> ptr_eq (fst (DeepCopy place (YamlSequence t s es) a0)) (Ptr a0 (YamlSequence t s es))
          \<and> a0 < snd (DeepCopy place (YamlSequence t s es) a0)"
        by (simp add: assign_base_def Let_def split_beta)
    qed
  next
    fix t s m
    assume IH: "?map m"
    show "?node (YamlMapping t s m)"
    proof (intro allI impI)
      fix a0 assume "well_formed (YamlMapping t s m)"
      then have wf: "well_formed_Map m" "keys_unique m" by simp_all
      from IH wf
      have "mset (unordered_Map (fst (DeepCopy_Map place m [] (a0 + 1))))
          = mset (unordered_Map m)"
        and "a0 + 1 \<le> snd (DeepCopy_Map place m [] (a0 + 1))"
        by (simp_all add: Map_find_Nil)
      then show "unordered_ptr (fst (DeepCopy place (YamlMapping t s m) a0))
            = Some (unordered_of (YamlMapping t s m))
          \<and> ptr_eq (fst (DeepCopy place (YamlMapping t s m) a0)) (Ptr a0 (YamlMapping t s m))
          \<and> a0 < snd (DeepCopy place (YamlMapping t s m) a0)"
        by (simp add: assign_base_def Let_def split_beta)
    qed
  next
    show "?ptr nullptr" by simp
  next
    fix a n
    assume IH: "?node n"
    then show "?ptr (Ptr a n)"
      by (auto simp add: ptr_eq_Ptr less_imp_le)
  next
    show "?entries []" by simp
  next
    fix p es
    assume IHp: "?ptr p" and IH: "?entries es"
    show "?entries (p # es)"
    proof (intro allI impI)
      fix entries a0 assume "well_formed_Entries (p # es)"
      then have wf: "well_formed_ptr p" "well_formed_Entries es" by simp_all
      obtain p' a1 where r: "DeepCopy_ptr place p a0 = (p', a1)"
        by (cases "DeepCopy_ptr place p a0")
      from IHp wf(1) r have 1: "unordered_ptr p' = unordered_ptr p" "a0 \<le> a1"
        by (metis fst_conv, metis snd_conv)
      from IH wf(2)
      have 2: "unordered_Entries (fst (DeepCopy_Entries place es (entries @ [p']) a1))
          = unordered_Entries (entries @ [p']) @ unordered_Entries es"
        "a1 \<le> snd (DeepCopy_Entries place es (entries @ [p']) a1)"
        by simp_all
      show "unordered_Entries (fst (DeepCopy_Entries place (p # es) entries a0))
          = unordered_Entries entries @ unordered_Entries (p # es)
        \<and> a0 \<le> snd (DeepCopy_Entries place (p # es) entries a0)"
        using 1 2 by (simp add: r unordered_Entries_append)
    qed
  next
    fix k v
    assume IHk: "?ptr k" and IHv: "?ptr v"
    show "?kvp (k, v)"
    proof (intro allI impI)
      fix a0 assume "well_formed_KVP (k, v)"
      then have wf: "well_formed_ptr k" "well_formed_ptr v" by simp_all
      obtain k' a1 where rk: "DeepCopy_ptr place k a0 = (k', a1)"
        by (cases "DeepCopy_ptr place k a0")
      obtain v' a2 where rv: "DeepCopy_ptr place v a1 = (v', a2)"
        by (cases "DeepCopy_ptr place v a1")
      from IHk wf(1)
      have "unordered_ptr (fst (DeepCopy_ptr place k a0)) = unordered_ptr k
        \<and> a0 \<le> snd (DeepCopy_ptr place k a0)
        \<and> (k = nullptr \<longrightarrow> fst (DeepCopy_ptr place k a0) = nullptr)
        \<and> (k \<noteq> nullptr \<longrightarrow> ptr_eq (fst (DeepCopy_ptr place k a0)) (Ptr a0 undefined)
              \<and> a0 < snd (DeepCopy_ptr place k a0))"
        by blast
      then have 1: "unordered_ptr k' = unordered_ptr k" "a0 \<le> a1"
        "k = nullptr \<longrightarrow> k' = nullptr"
        "k \<noteq> nullptr \<longrightarrow> ptr_eq k' (Ptr a0 undefined) \<and> a0 < a1"
        using rk by auto
      from IHv wf(2)
      have "unordered_ptr (fst (DeepCopy_ptr place v a1)) = unordered_ptr v
        \<and> a1 \<le> snd (DeepCopy_ptr place v a1)"
        by blast
      then have 2: "unordered_ptr v' = unordered_ptr v" "a1 \<le> a2"
        using rv by auto
      have r: "DeepCopy_KVP place (k, v) a0 = ((k', v'), a2)"
        by (simp add: rk rv)
      show "unordered_KVP (fst (DeepCopy_KVP place (k, v) a0)) = unordered_KVP (k, v)
        \<and> a0 \<le> snd (DeepCopy_KVP place (k, v) a0)
        \<and> (fst (k, v) = nullptr \<longrightarrow> fst (fst (DeepCopy_KVP place (k, v) a0)) = nullptr)
        \<and> (fst (k, v) \<noteq> nullptr \<longrightarrow>
              ptr_eq (fst (fst (DeepCopy_KVP place (k, v) a0))) (Ptr a0 undefined)
              \<and> a0 < snd (DeepCopy_KVP place (k, v) a0))"
        unfolding r using 1 2 by auto
    qed
  next
    show "?map []" by simp
  next
    fix kvp rest
    assume IHk: "?kvp kvp" and IH: "?map rest"
    show "?map (kvp # rest)"
    proof (intro allI impI)
      fix pairs a0
      assume wf: "well_formed_Map (kvp # rest)" and ku: "keys_unique (kvp # rest)"
        and below: "\<forall>a x. a0 \<le> a \<longrightarrow> Map_find pairs (Ptr a x) = None"
        and null: "Map_find pairs nullptr \<noteq> None \<longrightarrow> Map_find (kvp # rest) nullptr = None"
      from wf have wfk: "well_formed_KVP kvp" and wfr: "well_formed_Map rest" by simp_all
      from IHk wfk
      have k: "unordered_KVP (fst (DeepCopy_KVP place kvp a0)) = unordered_KVP kvp"
        "a0 \<le> snd (DeepCopy_KVP place kvp a0)"
        "fst kvp = nullptr \<longrightarrow> fst (fst (DeepCopy_KVP place kvp a0)) = nullptr"
        "fst kvp \<noteq> nullptr \<longrightarrow>
              ptr_eq (fst (fst (DeepCopy_KVP place kvp a0))) (Ptr a0 undefined)
              \<and> a0 < snd (DeepCopy_KVP place kvp a0)"
        by blast+
      show "mset (unordered_Map (fst (DeepCopy_Map place (kvp # rest) pairs a0)))
          = mset (unordered_Map pairs) + mset (unordered_Map (kvp # rest))
        \<and> a0 \<le> snd (DeepCopy_Map place (kvp # rest) pairs a0)"
      proof (rule DeepCopy_Map_step [OF _ k _ wfr ku below null])
        show "mset (place kvp m) = add_mset kvp (mset m)"
          if "Map_find m (fst kvp) = None" for kvp m
          using that by (rule container)
        show "mset (unordered_Map (fst (DeepCopy_Map place rest pairs fresh)))
            = mset (unordered_Map pairs) + mset (unordered_Map rest)
          \<and> fresh \<le> snd (DeepCopy_Map place rest pairs fresh)"
          if "well_formed_Map rest" "keys_unique rest"
            "\<forall>a x. fresh \<le> a \<longrightarrow> Map_find pairs (Ptr a x) = None"
            "Map_find pairs nullptr \<noteq> None \<longrightarrow> Map_find rest nullptr = None"
          for pairs fresh
          using IH that by blast
      qed
    qed
  qed
  then show ?thesis .
qed

lemma DeepCopy_unordered:
  assumes container: "\<And>kvp m. Map_find m (fst kvp) = None \<Longrightarrow>
          mset (place kvp m) = add_mset kvp (mset m)"
    and wf: "well_formed n"
  shows "\<exists>n'. fst (DeepCopy place n fresh) = Ptr fresh n' \<and> unordered_of n' = unordered_of n"
proof -
  from DeepCopy_unordered_all [OF container, of n nullptr "[]" "(nullptr, nullptr)" "[]"] wf
  have 1: "unordered_ptr (fst (DeepCopy place n fresh)) = Some (unordered_of n)"
    and 2: "ptr_eq (fst (DeepCopy place n fresh)) (Ptr fresh n)"
    by blast+
  from 2 obtain n' where 3: "fst (DeepCopy place n fresh) = Ptr fresh n'"
    by (auto simp add: ptr_eq_Ptr)
  with 1 have "unordered_of n' = unordered_of n" by simp
  with 3 show ?thesis by blast
qed

subsection \<open>Mappings of one pair\<close>

text \<open>
  Where no mapping has more than one pair there is no order to forget: two trees with
  the same pairs are then the same tree.
\<close>

lemma single_pairs_all:
  "(\<forall>n'. single_pairs n \<longrightarrow> unordered_of n' = unordered_of n \<longrightarrow> strip n' = strip n) \<and>
   (\<forall>p'. single_pairs_ptr p \<longrightarrow> unordered_ptr p' = unordered_ptr p
      \<longrightarrow> strip_ptr p' = strip_ptr p) \<and>
   (\<forall>es'. single_pairs_Entries es \<longrightarrow> unordered_Entries es' = unordered_Entries es
      \<longrightarrow> strip_Entries es' = strip_Entries es) \<and>
   (\<forall>kvp'. single_pairs_KVP kvp \<longrightarrow> unordered_KVP kvp' = unordered_KVP kvp
      \<longrightarrow> strip_KVP kvp' = strip_KVP kvp) \<and>
   (\<forall>m'. single_pairs_Map m \<longrightarrow> unordered_Map m' = unordered_Map m
      \<longrightarrow> strip_Map m' = strip_Map m)"
proof -
  let ?node = "\<lambda>n. \<forall>n'. single_pairs n \<longrightarrow> unordered_of n' = unordered_of n
      \<longrightarrow> strip n' = strip n"
  let ?ptr = "\<lambda>p. \<forall>p'. single_pairs_ptr p \<longrightarrow> unordered_ptr p' = unordered_ptr p
      \<longrightarrow> strip_ptr p' = strip_ptr p"
  let ?entries = "\<lambda>es. \<forall>es'. single_pairs_Entries es
      \<longrightarrow> unordered_Entries es' = unordered_Entries es \<longrightarrow> strip_Entries es' = strip_Entries es"
  let ?kvp = "\<lambda>kvp. \<forall>kvp'. single_pairs_KVP kvp \<longrightarrow> unordered_KVP kvp' = unordered_KVP kvp
      \<longrightarrow> strip_KVP kvp' = strip_KVP kvp"
  let ?map = "\<lambda>m. \<forall>m'. single_pairs_Map m \<longrightarrow> unordered_Map m' = unordered_Map m
      \<longrightarrow> strip_Map m' = strip_Map m"
  have "?node n \<and> ?ptr p \<and> ?entries es \<and> ?kvp kvp \<and> ?map m"
  proof (rule strip_strip_Entries_strip_Map_strip_KVP_strip_ptr.induct
           [where ?P1.0 = ?node and ?P2.0 = ?ptr and ?P3.0 = ?entries and ?P4.0 = ?kvp
              and ?P5.0 = ?map])
    fix t s c
    show "?node (YamlScalar t s c)"
    proof (intro allI impI)
      fix n' assume "unordered_of n' = unordered_of (YamlScalar t s c)"
      then show "strip n' = strip (YamlScalar t s c)" by (cases n') simp_all
    qed
  next
    fix t s es
    assume IH: "?entries es"
    show "?node (YamlSequence t s es)"
    proof (intro allI impI)
      fix n'
      assume sp: "single_pairs (YamlSequence t s es)"
        and eq: "unordered_of n' = unordered_of (YamlSequence t s es)"
      from eq obtain es' where n': "n' = YamlSequence t s es'"
        and e: "unordered_Entries es' = unordered_Entries es"
        by (cases n') simp_all
      from sp have "single_pairs_Entries es" by simp
      with IH e have "strip_Entries es' = strip_Entries es" by blast
      then show "strip n' = strip (YamlSequence t s es)" by (simp add: n')
    qed
  next
    fix t s m
    assume IH: "?map m"
    show "?node (YamlMapping t s m)"
    proof (intro allI impI)
      fix n'
      assume sp: "single_pairs (YamlMapping t s m)"
        and eq: "unordered_of n' = unordered_of (YamlMapping t s m)"
      from eq obtain m' where n': "n' = YamlMapping t s m'"
        and ms: "mset (unordered_Map m') = mset (unordered_Map m)"
        by (cases n') simp_all
      from sp have "length (unordered_Map m) \<le> 1" and sm: "single_pairs_Map m"
        by (simp_all add: unordered_Map_map)
      from mset_short [OF ms this(1)] have e: "unordered_Map m' = unordered_Map m" .
      from IH sm e have "strip_Map m' = strip_Map m" by blast
      then show "strip n' = strip (YamlMapping t s m)" by (simp add: n')
    qed
  next
    show "?ptr nullptr"
    proof (intro allI impI)
      fix p' assume "unordered_ptr p' = unordered_ptr nullptr"
      then show "strip_ptr p' = strip_ptr nullptr" by (cases p') simp_all
    qed
  next
    fix a n
    assume IH: "?node n"
    show "?ptr (Ptr a n)"
    proof (intro allI impI)
      fix p'
      assume sp: "single_pairs_ptr (Ptr a n)"
        and eq: "unordered_ptr p' = unordered_ptr (Ptr a n)"
      from eq obtain b n' where p': "p' = Ptr b n'" and e: "unordered_of n' = unordered_of n"
        by (cases p') simp_all
      from sp have "single_pairs n" by simp
      with IH e have "strip n' = strip n" by blast
      then show "strip_ptr p' = strip_ptr (Ptr a n)" by (simp add: p')
    qed
  next
    show "?entries []"
    proof (intro allI impI)
      fix es' assume "unordered_Entries es' = unordered_Entries []"
      then show "strip_Entries es' = strip_Entries []" by (cases es') simp_all
    qed
  next
    fix p es
    assume IHp: "?ptr p" and IH: "?entries es"
    show "?entries (p # es)"
    proof (intro allI impI)
      fix es'
      assume sp: "single_pairs_Entries (p # es)"
        and eq: "unordered_Entries es' = unordered_Entries (p # es)"
      from eq obtain p' rest where es': "es' = p' # rest"
        and e1: "unordered_ptr p' = unordered_ptr p"
        and e2: "unordered_Entries rest = unordered_Entries es"
        by (cases es') simp_all
      from sp have s1: "single_pairs_ptr p" and s2: "single_pairs_Entries es" by simp_all
      from IHp s1 e1 have 1: "strip_ptr p' = strip_ptr p" by blast
      from IH s2 e2 have 2: "strip_Entries rest = strip_Entries es" by blast
      show "strip_Entries es' = strip_Entries (p # es)" by (simp add: es' 1 2)
    qed
  next
    fix k v
    assume IHk: "?ptr k" and IHv: "?ptr v"
    show "?kvp (k, v)"
    proof (intro allI impI)
      fix kvp'
      assume sp: "single_pairs_KVP (k, v)"
        and eq: "unordered_KVP kvp' = unordered_KVP (k, v)"
      obtain k' v' where kvp': "kvp' = (k', v')" by (cases kvp')
      with eq have e1: "unordered_ptr k' = unordered_ptr k"
        and e2: "unordered_ptr v' = unordered_ptr v"
        by simp_all
      from sp have s1: "single_pairs_ptr k" and s2: "single_pairs_ptr v" by simp_all
      from IHk s1 e1 have 1: "strip_ptr k' = strip_ptr k" by blast
      from IHv s2 e2 have 2: "strip_ptr v' = strip_ptr v" by blast
      show "strip_KVP kvp' = strip_KVP (k, v)" by (simp add: kvp' 1 2)
    qed
  next
    show "?map []"
    proof (intro allI impI)
      fix m' assume "unordered_Map m' = unordered_Map []"
      then show "strip_Map m' = strip_Map []" by (cases m') simp_all
    qed
  next
    fix kvp m
    assume IHk: "?kvp kvp" and IH: "?map m"
    show "?map (kvp # m)"
    proof (intro allI impI)
      fix m'
      assume sp: "single_pairs_Map (kvp # m)"
        and eq: "unordered_Map m' = unordered_Map (kvp # m)"
      from eq obtain kvp' rest where m': "m' = kvp' # rest"
        and e1: "unordered_KVP kvp' = unordered_KVP kvp"
        and e2: "unordered_Map rest = unordered_Map m"
        by (cases m') simp_all
      from sp have s1: "single_pairs_KVP kvp" and s2: "single_pairs_Map m" by simp_all
      from IHk s1 e1 have 1: "strip_KVP kvp' = strip_KVP kvp" by blast
      from IH s2 e2 have 2: "strip_Map rest = strip_Map m" by blast
      show "strip_Map m' = strip_Map (kvp # m)" by (simp add: m' 1 2)
    qed
  qed
  then show ?thesis .
qed

lemma single_pairs_same_tree:
  "single_pairs n \<Longrightarrow> unordered_of n' = unordered_of n \<Longrightarrow> strip n' = strip n"
  using single_pairs_all [of n nullptr "[]" "(nullptr, nullptr)" "[]"] by blast

text \<open>
  C3, as the specification states it: the copy of every node is written as the node is.
  The mapping below has two pairs. Its copy is made in a container that links a new
  node at the head of its node list (\<open>at_front\<close>), so the loop of \<open>DeepCopy\<close>, which
  inserts the pairs in iteration order, ends with the pairs in the opposite order, and
  \<open>ToJson\<close> writes the pair of \<open>b\<close> before that of \<open>a\<close>.
\<close>

theorem DeepCopy_ToJson_counterexample:
  "well_formed (YamlMapping ''?'' ''line 1''
        [(Ptr 1 (YamlScalar ''?'' ''line 1'' ''a''), Ptr 2 (YamlScalar ''?'' ''line 1'' ''1'')),
         (Ptr 3 (YamlScalar ''?'' ''line 2'' ''b''), Ptr 4 (YamlScalar ''?'' ''line 2'' ''2''))])
   \<and> fst (DeepCopy at_front (YamlMapping ''?'' ''line 1''
        [(Ptr 1 (YamlScalar ''?'' ''line 1'' ''a''), Ptr 2 (YamlScalar ''?'' ''line 1'' ''1'')),
         (Ptr 3 (YamlScalar ''?'' ''line 2'' ''b''), Ptr 4 (YamlScalar ''?'' ''line 2'' ''2''))]) 5)
     = Ptr 5 (YamlMapping ''?'' ''line 1''
        [(Ptr 8 (YamlScalar ''?'' ''line 2'' ''b''), Ptr 9 (YamlScalar ''?'' ''line 2'' ''2'')),
         (Ptr 6 (YamlScalar ''?'' ''line 1'' ''a''), Ptr 7 (YamlScalar ''?'' ''line 1'' ''1''))])
   \<and> ToJson id JsonWriterOptions_default (YamlMapping ''?'' ''line 1''
        [(Ptr 8 (YamlScalar ''?'' ''line 2'' ''b''), Ptr 9 (YamlScalar ''?'' ''line 2'' ''2'')),
         (Ptr 6 (YamlScalar ''?'' ''line 1'' ''a''), Ptr 7 (YamlScalar ''?'' ''line 1'' ''1''))])
     \<noteq> ToJson id JsonWriterOptions_default (YamlMapping ''?'' ''line 1''
        [(Ptr 1 (YamlScalar ''?'' ''line 1'' ''a''), Ptr 2 (YamlScalar ''?'' ''line 1'' ''1'')),
         (Ptr 3 (YamlScalar ''?'' ''line 2'' ''b''), Ptr 4 (YamlScalar ''?'' ''line 2'' ''2''))])"
  by (simp add: Map_find_def Map_insert_def at_front_def assign_base_def
        JsonWriterOptions_default_def AddIndent_def ToJsonValue_def quoted_def)

text \<open>
  C3, amended. Whatever the container does with the order of its pairs, as long as it
  keeps the pairs it has and adds the pair inserted, the copy of a node is the same tree
  at new addresses up to the order of the pairs of each mapping: of a scalar, of a
  sequence and of a mapping, with null entries, null keys and null values. So \<open>ToJson\<close>
  writes for the copy what it writes for the original, except that a mapping with two or
  more pairs may list them in another order; when no mapping of the tree has more than
  one pair, the two strings are the same, with any \<open>JsonWriterOptions\<close> and any \<open>Escape\<close>.
  \<open>well_formed\<close> is the invariant of the container (no two keys of a mapping are the same
  pointer), which every tree built through \<open>unordered_map\<close> has.
\<close>

theorem DeepCopy_ToJson:
  assumes "\<And>kvp m. Map_find m (fst kvp) = None \<Longrightarrow> mset (place kvp m) = add_mset kvp (mset m)"
    and "well_formed n"
  shows "\<exists>n'. fst (DeepCopy place n fresh) = Ptr fresh n'
           \<and> unordered_of n' = unordered_of n
           \<and> (single_pairs n \<longrightarrow> ToJson Escape Options n' = ToJson Escape Options n)"
proof -
  from DeepCopy_unordered [OF assms, of fresh]
  obtain n' where 1: "fst (DeepCopy place n fresh) = Ptr fresh n'"
    and 2: "unordered_of n' = unordered_of n"
    by blast
  have "ToJson Escape Options n' = ToJson Escape Options n" if "single_pairs n"
    by (rule same_strip_ToJson [OF single_pairs_same_tree [OF that 2]])
  with 1 2 show ?thesis by blast
qed

theorem DeepCopy_ToJson_witness:
  "(\<forall>kvp m. mset (at_front kvp m) = add_mset kvp (mset m))
   \<and> well_formed (YamlSequence ''!!seq'' ''doc.yaml:1''
     [nullptr,
      Ptr 1 (YamlMapping ''!!map'' ''doc.yaml:2''
        [(nullptr, Ptr 2 (YamlSequence ''?'' ''doc.yaml:2''
            [Ptr 3 (YamlScalar ''?'' ''doc.yaml:2'' ''1''), nullptr]))]),
      Ptr 4 (YamlMapping ''?'' ''doc.yaml:3''
        [(Ptr 5 (YamlScalar ''?'' ''doc.yaml:3'' ''k''), nullptr)])])
   \<and> single_pairs (YamlSequence ''!!seq'' ''doc.yaml:1''
     [nullptr,
      Ptr 1 (YamlMapping ''!!map'' ''doc.yaml:2''
        [(nullptr, Ptr 2 (YamlSequence ''?'' ''doc.yaml:2''
            [Ptr 3 (YamlScalar ''?'' ''doc.yaml:2'' ''1''), nullptr]))]),
      Ptr 4 (YamlMapping ''?'' ''doc.yaml:3''
        [(Ptr 5 (YamlScalar ''?'' ''doc.yaml:3'' ''k''), nullptr)])])
   \<and> (\<exists>n'. fst (DeepCopy at_front (YamlSequence ''!!seq'' ''doc.yaml:1''
     [nullptr,
      Ptr 1 (YamlMapping ''!!map'' ''doc.yaml:2''
        [(nullptr, Ptr 2 (YamlSequence ''?'' ''doc.yaml:2''
            [Ptr 3 (YamlScalar ''?'' ''doc.yaml:2'' ''1''), nullptr]))]),
      Ptr 4 (YamlMapping ''?'' ''doc.yaml:3''
        [(Ptr 5 (YamlScalar ''?'' ''doc.yaml:3'' ''k''), nullptr)])]) 6) = Ptr 6 n'
       \<and> ToJson id JsonWriterOptions_default n' = ToJson id JsonWriterOptions_default
         (YamlSequence ''!!seq'' ''doc.yaml:1''
     [nullptr,
      Ptr 1 (YamlMapping ''!!map'' ''doc.yaml:2''
        [(nullptr, Ptr 2 (YamlSequence ''?'' ''doc.yaml:2''
            [Ptr 3 (YamlScalar ''?'' ''doc.yaml:2'' ''1''), nullptr]))]),
      Ptr 4 (YamlMapping ''?'' ''doc.yaml:3''
        [(Ptr 5 (YamlScalar ''?'' ''doc.yaml:3'' ''k''), nullptr)])]))"
proof -
  let ?n = "YamlSequence ''!!seq'' ''doc.yaml:1''
     [nullptr,
      Ptr 1 (YamlMapping ''!!map'' ''doc.yaml:2''
        [(nullptr, Ptr 2 (YamlSequence ''?'' ''doc.yaml:2''
            [Ptr 3 (YamlScalar ''?'' ''doc.yaml:2'' ''1''), nullptr]))]),
      Ptr 4 (YamlMapping ''?'' ''doc.yaml:3''
        [(Ptr 5 (YamlScalar ''?'' ''doc.yaml:3'' ''k''), nullptr)])]"
  have container: "mset (at_front kvp m) = add_mset kvp (mset m)" for kvp m
    by (simp add: at_front_def)
  have wf: "well_formed ?n"
    by (simp add: Map_find_def)
  have sp: "single_pairs ?n"
    by simp
  from DeepCopy_ToJson [of at_front ?n 6 id JsonWriterOptions_default, OF container wf] sp
  have "\<exists>n'. fst (DeepCopy at_front ?n 6) = Ptr 6 n'
      \<and> ToJson id JsonWriterOptions_default n' = ToJson id JsonWriterOptions_default ?n"
    by blast
  with container wf sp show ?thesis by blast
qed

section \<open>Add\<close>

text \<open>
  What \<open>Add\<close> does: the format error is raised exactly when the pointer inserted is not
  null and the mapping has a key at the same address.
\<close>

lemma Add_FormatException_iff:
  "(\<exists>msg. Add place (YamlMapping t s m) pFrom pTo = Inl (FormatException msg))
     \<longleftrightarrow> (\<exists>a f k v. pFrom = Ptr a f \<and> (Ptr a k, v) \<in> set m)"
proof (cases "Map_find m pFrom")
  case None
  then have "\<not> (\<exists>a f k v. pFrom = Ptr a f \<and> (Ptr a k, v) \<in> set m)"
    by (force simp add: Map_find_None)
  with None show ?thesis by simp
next
  case (Some it)
  from Map_find_Some [OF Some] have it: "it \<in> set m" "ptr_eq (fst it) pFrom" by simp_all
  show ?thesis
  proof (cases pFrom)
    case nullptr
    with Some show ?thesis by (simp split: option.split)
  next
    case (Ptr a f)
    with it(2) obtain k where k: "fst it = Ptr a k" by (auto simp add: ptr_eq_Ptr)
    with it(1) have "(Ptr a k, snd it) \<in> set m" by (metis prod.collapse)
    with Ptr k Some show ?thesis by auto
  qed
qed

lemma Add_same_pointer_throws:
  "Add place
       (YamlMapping ''?'' ''doc.yaml:1''
          [(Ptr 1 (YamlScalar ''?'' ''doc.yaml:1'' ''a''),
            Ptr 2 (YamlScalar ''?'' ''doc.yaml:1'' ''1''))])
       (Ptr 1 (YamlScalar ''?'' ''doc.yaml:1'' ''a''))
       (Ptr 4 (YamlScalar ''?'' ''doc.yaml:1'' ''2''))
     = Inl (FormatException
        ''Duplicate keys found at doc.yaml:1 and doc.yaml:1 are not permitted in mapping at doc.yaml:1.'')"
  by (simp add: Map_find_def)

text \<open>
  C1. The mapping holds the key \<open>a\<close>, a scalar at address 1. A second scalar \<open>a\<close>, equal
  to the first in every member but stored at address 3, is added as a key: \<open>find\<close>
  compares the pointers, finds nothing, and \<open>Add\<close> inserts the pair without an error,
  whatever the container's placement. The mapping then holds two keys that are the same
  tree.
\<close>

theorem Add_equal_keys_accepted:
  "same_tree (Ptr 3 (YamlScalar ''?'' ''doc.yaml:1'' ''a''))
             (Ptr 1 (YamlScalar ''?'' ''doc.yaml:1'' ''a''))
   \<and> Add place
       (YamlMapping ''?'' ''doc.yaml:1''
          [(Ptr 1 (YamlScalar ''?'' ''doc.yaml:1'' ''a''),
            Ptr 2 (YamlScalar ''?'' ''doc.yaml:1'' ''1''))])
       (Ptr 3 (YamlScalar ''?'' ''doc.yaml:1'' ''a''))
       (Ptr 4 (YamlScalar ''?'' ''doc.yaml:1'' ''2''))
     = Inr (YamlMapping ''?'' ''doc.yaml:1''
         (place (Ptr 3 (YamlScalar ''?'' ''doc.yaml:1'' ''a''),
                 Ptr 4 (YamlScalar ''?'' ''doc.yaml:1'' ''2''))
          [(Ptr 1 (YamlScalar ''?'' ''doc.yaml:1'' ''a''),
            Ptr 2 (YamlScalar ''?'' ''doc.yaml:1'' ''1''))]))"
  by (simp add: same_tree_def Map_find_def Map_insert_def)

section \<open>FindNthChild\<close>

lemma FindNthChild_loop_eq:
  "0 \<le> k \<Longrightarrow> FindNthChild_loop TagName k cs =
     (if nat k < length (filter (has_tag TagName) cs) then filter (has_tag TagName) cs ! nat k
      else null)"
proof (induction cs arbitrary: k)
  case Nil
  show ?case by simp
next
  case (Cons c cs)
  show ?case
  proof (cases "has_tag TagName c")
    case False
    with Cons show ?thesis by simp
  next
    case True
    show ?thesis
    proof (cases "k = 0")
      case True
      with \<open>has_tag TagName c\<close> show ?thesis by simp
    next
      case False
      with Cons.prems have k: "0 \<le> k - 1" "nat k = Suc (nat (k - 1))" by simp_all
      from Cons.IH [OF k(1)] True False show ?thesis
        by (simp add: k(2))
    qed
  qed
qed

lemma has_tag_filter:
  "filter (has_tag TagName) cs
     = filter (\<lambda>e. case e of Shared a n \<Rightarrow> LocalName n = TagName | null \<Rightarrow> False)
         (filter is_element_ptr cs)"
proof -
  have "has_tag TagName p \<longleftrightarrow>
      is_element_ptr p \<and> (case p of Shared a n \<Rightarrow> LocalName n = TagName | null \<Rightarrow> False)" for p
    by (cases "(TagName, p)" rule: has_tag.cases) auto
  then have "has_tag TagName =
      (\<lambda>p. is_element_ptr p \<and>
         (case p of Shared a n \<Rightarrow> LocalName n = TagName | null \<Rightarrow> False))"
    by (intro ext)
  then show ?thesis by simp
qed

text \<open>
  C6. For every node, every name and every \<open>k\<close> from 0 on, \<open>FindNthChild(name, k)\<close> is the
  pointer at position \<open>k\<close> (counted from 0, so the (k+1)-th) of \<open>Elements()\<close> filtered by
  \<open>LocalName = name\<close>, in document order, and null when fewer than \<open>k + 1\<close> children match.
\<close>

theorem FindNthChild_Elements:
  "0 \<le> k \<Longrightarrow>
     FindNthChild n TagName k =
       (let matching =
              filter (\<lambda>e. case e of Shared a el \<Rightarrow> LocalName el = TagName | null \<Rightarrow> False)
                (Elements n)
        in if nat k < length matching then matching ! nat k else null)"
  by (simp add: FindNthChild_def Elements_def FindNthChild_loop_eq has_tag_filter Let_def)

theorem FindNthChild_Elements_witness:
  "(0::int) \<le> 1
   \<and> FindNthChild
       (XmlElement
          [Shared 2 (XmlElement [Shared 3 (XmlText [] ''line 1'' ''hi'')] ''line 1'' ''c'' []),
           Shared 4 (XmlText [] ''line 1'' '' ''),
           Shared 5 (XmlElement [Shared 6 (XmlText [] ''line 1'' ''bye'')] ''line 1'' ''c'' [])]
          ''line 1'' ''r'' [])
       ''c'' 1
     = Shared 5 (XmlElement [Shared 6 (XmlText [] ''line 1'' ''bye'')] ''line 1'' ''c'' [])"
  using FindNthChild_Elements [of 1
      "XmlElement
          [Shared 2 (XmlElement [Shared 3 (XmlText [] ''line 1'' ''hi'')] ''line 1'' ''c'' []),
           Shared 4 (XmlText [] ''line 1'' '' ''),
           Shared 5 (XmlElement [Shared 6 (XmlText [] ''line 1'' ''bye'')] ''line 1'' ''c'' [])]
          ''line 1'' ''r'' []" "''c''"]
  by (simp add: Elements_def)

section \<open>PartialParse\<close>

subsection \<open>Every call returns\<close>

lemma weight_bounds: "1 \<le> weight p \<and> weight p \<le> 2"
  by (simp add: weight_def split: State.split)

lemma shorter_potential:
  "length (Input p') < length (Input p) \<Longrightarrow> potential p' < potential p"
  using weight_bounds [of p] weight_bounds [of p'] by (simp add: potential_def)

lemma decreases_shorter:
  "(\<And>p'. r = Continue p' \<Longrightarrow> length (Input p') < length (Input p)) \<Longrightarrow> decreases p r"
  by (cases r) (simp_all add: shorter_potential)

lemma Input_Consume: "Input (Consume n p) = drop n (Input p)"
  by (simp add: Consume_def)

lemma Input_SkipWhitespace: "length (Input (SkipWhitespace p)) \<le> length (Input p)"
  by (simp add: SkipWhitespace_def Input_Consume)

lemma Input_OnCloseElement: "OnCloseElement p = Continue p' \<Longrightarrow> Input p' = Input p"
  by (auto simp add: OnCloseElement_def split: list.splits)

lemma Input_AddText: "AddText loc t p = Continue p' \<Longrightarrow> Input p' = Input p"
  by (auto simp add: AddText_def split: list.splits)

lemma split_at_Some:
  "split_at marker s = Some (front, rest) \<Longrightarrow> s = front @ marker @ rest"
proof (induction s arbitrary: front rest)
  case Nil
  then show ?case by (simp split: if_splits)
next
  case (Cons ch s)
  show ?case
  proof (cases "starts_with marker (ch # s)")
    case True
    with Cons.prems have "front = []" "rest = drop (length marker) (ch # s)" by simp_all
    moreover from True have "ch # s = marker @ drop (length marker) (ch # s)"
      unfolding starts_with_def by (metis append_take_drop_id)
    ultimately show ?thesis by simp
  next
    case False
    with Cons.prems obtain f where "split_at marker s = Some (f, rest)" "front = ch # f"
      by (auto split: option.splits)
    with Cons.IH show ?thesis by simp
  qed
qed

lemma starts_with_Cons: "starts_with (c # m) s \<Longrightarrow> s \<noteq> []"
  by (auto simp add: starts_with_def)

lemma doctype_length_pos: "doctype_length d s = Some n \<Longrightarrow> 0 < n \<and> s \<noteq> []"
  by (cases s) (auto split: if_splits)

lemma trim_Nil: "trim [] = []"
  by (simp add: trim_def)

lemma decreases_Dispatch: "CurrentState p = Idle \<Longrightarrow> decreases p (Dispatch p)"
proof -
  assume idle: "CurrentState p = Idle"
  define q where "q = (if NodeStack p = [] then SkipWhitespace p else p)"
  have le: "length (Input q) \<le> length (Input p)"
    by (simp add: q_def Input_SkipWhitespace)
  show ?thesis
  proof (cases "NodeStack q \<noteq> [] \<and> Input q \<noteq> [] \<and> hd (Input q) \<noteq> CHR ''<''")
    case True
    then have qp: "q = p" by (auto simp add: q_def SkipWhitespace_def Consume_def)
    from True obtain c s where s: "Input p = c # s" "c \<noteq> CHR ''<''"
      unfolding qp by (cases "Input p") auto
    from True s(2) have "Dispatch p = Continue (p\<lparr>CurrentState := ParsingPCDATA\<rparr>)"
      unfolding Dispatch_def q_def [symmetric] Let_def qp
      by (auto simp add: s(1) starts_with_def cut_short_def)
    with idle s show ?thesis by (simp add: potential_def weight_def)
  next
    case False
    show ?thesis
    proof (rule decreases_shorter)
      fix p' assume "Dispatch p = Continue p'"
      with False le show "length (Input p') < length (Input p)"
        unfolding Dispatch_def q_def [symmetric] Let_def
        by (cases "Input q") (auto simp add: Input_Consume split: if_splits)
    qed
  qed
qed

lemma decreases_ParseComment: "decreases p (ParseComment p)"
  by (rule decreases_shorter)
     (auto simp add: ParseComment_def Input_Consume dest!: split_at_Some split: option.splits)

lemma decreases_ParseXMLDeclaration: "decreases p (ParseXMLDeclaration p)"
  by (rule decreases_shorter)
     (auto simp add: ParseXMLDeclaration_def Input_Consume dest!: split_at_Some
        split: option.splits)

lemma decreases_ParseDOCTYPE: "decreases p (ParseDOCTYPE p)"
  by (rule decreases_shorter)
     (auto simp add: ParseDOCTYPE_def Input_Consume dest!: doctype_length_pos
        split: option.splits)

lemma decreases_ParseCDATA: "decreases p (ParseCDATA p)"
  by (rule decreases_shorter)
     (auto simp add: ParseCDATA_def Input_Consume dest!: split_at_Some Input_AddText
        split: option.splits)

lemma decreases_ParsePCDATA:
  "CurrentState p = ParsingPCDATA \<Longrightarrow> decreases p (ParsePCDATA U p)"
proof (cases "\<exists>rest. split_at ''<'' (Input p) = Some ([], rest)")
  case False
  show ?thesis
  proof (rule decreases_shorter)
    fix p' assume "ParsePCDATA U p = Continue p'"
    with False show "length (Input p') < length (Input p)"
      by (auto simp add: ParsePCDATA_def Input_Consume dest!: split_at_Some Input_AddText
            split: option.splits)
  qed
next
  case True
  assume st: "CurrentState p = ParsingPCDATA"
  from True obtain rest where sp: "split_at ''<'' (Input p) = Some ([], rest)" by blast
  from split_at_Some [OF sp] have s: "Input p = ''<'' @ rest" by simp
  show ?thesis
  proof (cases "U []")
    case None
    with sp show ?thesis by (simp add: ParsePCDATA_def)
  next
    case (Some t)
    with sp s st show ?thesis
      by (auto simp add: ParsePCDATA_def AddText_def Consume_def potential_def weight_def
            split: list.splits)
  qed
qed

lemma decreases_ParseOpeningTag:
  "CurrentState p = ParsingOpeningTag \<Longrightarrow> decreases p (ParseOpeningTag p)"
  by (auto simp add: ParseOpeningTag_def Let_def potential_def weight_def Consume_def)

lemma decreases_ParseAttributeKey: "decreases p (ParseAttributeKey p)"
proof (rule decreases_shorter)
  fix p' assume r: "ParseAttributeKey p = Continue p'"
  define q where "q = SkipWhitespace p"
  have le: "length (Input q) \<le> length (Input p)"
    by (simp add: q_def Input_SkipWhitespace)
  from r have "length (Input p') < length (Input q)"
    unfolding ParseAttributeKey_def q_def [symmetric] Let_def
    by (auto simp add: Input_Consume trim_Nil
          dest!: split_at_Some Input_OnCloseElement starts_with_Cons
          split: option.splits if_splits)
  with le show "length (Input p') < length (Input p)" by simp
qed

lemma decreases_ParseAttributeValueStart: "decreases p (ParseAttributeValueStart p)"
proof (rule decreases_shorter)
  fix p' assume r: "ParseAttributeValueStart p = Continue p'"
  then have "dropWhile IsWhitespace (drop 1 (Input p)) \<noteq> []"
    by (auto simp add: ParseAttributeValueStart_def Let_def split: if_splits)
  then have "Input p \<noteq> []" by auto
  with r show "length (Input p') < length (Input p)"
    by (auto simp add: ParseAttributeValueStart_def Let_def Input_Consume split: if_splits)
qed

lemma decreases_ParseAttributeValue: "decreases p (ParseAttributeValue U p)"
  by (rule decreases_shorter)
     (auto simp add: ParseAttributeValue_def Input_Consume dest!: split_at_Some
        split: option.splits list.splits)

lemma decreases_ParseClosingTag: "decreases p (ParseClosingTag p)"
  by (rule decreases_shorter)
     (auto simp add: ParseClosingTag_def Input_Consume
        dest!: split_at_Some Input_OnCloseElement
        split: option.splits list.splits if_splits)

lemma decreases_step: "decreases p (step U p)"
  by (cases "CurrentState p")
     (simp_all add: step_def decreases_Dispatch decreases_ParseComment
        decreases_ParseXMLDeclaration decreases_ParseDOCTYPE decreases_ParseCDATA
        decreases_ParsePCDATA decreases_ParseOpeningTag decreases_ParseAttributeKey
        decreases_ParseAttributeValueStart decreases_ParseAttributeValue
        decreases_ParseClosingTag)

lemma run_returns: "potential p < fuel \<Longrightarrow> run U fuel p \<noteq> None"
proof (induction fuel arbitrary: p)
  case 0
  then show ?case by simp
next
  case (Suc fuel)
  show ?case
  proof (cases "step U p")
    case (Continue p')
    with decreases_step [of p U] have "potential p' < potential p" by simp
    with Suc.prems have "potential p' < fuel" by simp
    from Suc.IH [OF this] Continue show ?thesis by simp
  qed simp_all
qed

text \<open>
  The steps \<open>PartialParse\<close> allows are never used up: every call returns an error, a
  document or null.
\<close>

lemma PartialParse_returns: "PartialParse U p \<noteq> None"
proof -
  from weight_bounds [of p] have "potential p < 3 * length (Input p) + 3"
    by (simp add: potential_def)
  then show ?thesis unfolding PartialParse_def by (rule run_returns)
qed

subsection \<open>One top-level element in every document returned\<close>

lemma IsElement_AppendChild: "IsElement (AppendChild n c) = IsElement n"
  by (cases n) (simp_all add: AppendChild_def)

lemma IsElement_SetAttribute: "IsElement (SetAttribute n k v) = IsElement n"
  by (cases n) (simp_all add: SetAttribute_def)

lemma AppendChild_doc: "AppendChild (XmlDocument cs loc) c = XmlDocument (cs @ [c]) loc"
  by (simp add: AppendChild_def)

lemma inv_Consume: "parser_inv (Consume n p) = parser_inv p"
  by (simp add: parser_inv_def Consume_def)

lemma inv_Key: "parser_inv (p\<lparr>CurrentKey := k\<rparr>) = parser_inv p"
  by (simp add: parser_inv_def)

lemma inv_State: "parser_inv (p\<lparr>CurrentState := s\<rparr>) = parser_inv p"
  by (simp add: parser_inv_def)

lemma inv_SkipWhitespace: "parser_inv (SkipWhitespace p) = parser_inv p"
  by (simp add: SkipWhitespace_def inv_Consume)

lemma good_OnCloseElement: "parser_inv p \<Longrightarrow> good (OnCloseElement p)"
  by (auto simp add: OnCloseElement_def parser_inv_def AppendChild_doc IsElement_AppendChild
        split: list.splits)

lemma good_AddText: "parser_inv p \<Longrightarrow> good (AddText loc t p)"
  by (auto simp add: AddText_def parser_inv_def IsElement_AppendChild split: list.splits)

lemma good_Dispatch: "parser_inv p \<Longrightarrow> good (Dispatch p)"
  by (simp add: Dispatch_def Let_def inv_Consume inv_State inv_SkipWhitespace)

lemma good_ParseComment: "parser_inv p \<Longrightarrow> good (ParseComment p)"
  by (simp add: ParseComment_def inv_Consume inv_State split: option.splits)

lemma good_ParseXMLDeclaration: "parser_inv p \<Longrightarrow> good (ParseXMLDeclaration p)"
  by (simp add: ParseXMLDeclaration_def inv_Consume inv_State split: option.splits)

lemma good_ParseDOCTYPE: "parser_inv p \<Longrightarrow> good (ParseDOCTYPE p)"
  by (simp add: ParseDOCTYPE_def inv_Consume inv_State split: option.splits)

lemma good_ParseCDATA: "parser_inv p \<Longrightarrow> good (ParseCDATA p)"
  by (simp add: ParseCDATA_def inv_Consume good_AddText split: option.splits)

lemma good_ParsePCDATA: "parser_inv p \<Longrightarrow> good (ParsePCDATA U p)"
  by (simp add: ParsePCDATA_def inv_Consume good_AddText split: option.splits)

lemma good_ParseOpeningTag: "parser_inv p \<Longrightarrow> good (ParseOpeningTag p)"
  by (simp add: ParseOpeningTag_def Let_def parser_inv_def Consume_def)

lemma good_ParseAttributeKey: "parser_inv p \<Longrightarrow> good (ParseAttributeKey p)"
  by (simp add: ParseAttributeKey_def Let_def inv_Consume inv_State inv_Key inv_SkipWhitespace
        good_OnCloseElement split: option.splits)

lemma good_ParseAttributeValueStart: "parser_inv p \<Longrightarrow> good (ParseAttributeValueStart p)"
  by (simp add: ParseAttributeValueStart_def Let_def parser_inv_def Consume_def)

lemma good_ParseAttributeValue: "parser_inv p \<Longrightarrow> good (ParseAttributeValue U p)"
  by (auto simp add: ParseAttributeValue_def Let_def parser_inv_def Consume_def
        IsElement_SetAttribute split: option.splits list.splits)

lemma good_ParseClosingTag: "parser_inv p \<Longrightarrow> good (ParseClosingTag p)"
  by (simp add: ParseClosingTag_def inv_Consume good_OnCloseElement
        split: option.splits list.splits)

lemma good_step: "parser_inv p \<Longrightarrow> good (step U p)"
  by (cases "CurrentState p")
     (simp_all add: step_def good_Dispatch good_ParseComment good_ParseXMLDeclaration
        good_ParseDOCTYPE good_ParseCDATA good_ParsePCDATA good_ParseOpeningTag
        good_ParseAttributeKey good_ParseAttributeValueStart good_ParseAttributeValue
        good_ParseClosingTag)

lemma run_one_root:
  "parser_inv p \<Longrightarrow> run U fuel p = Some (Inr (Some doc, p')) \<Longrightarrow>
     parser_inv p' \<and> (\<exists>a el. doc = XmlDocument [Shared a el] [] \<and> IsElement el)"
proof (induction fuel arbitrary: p)
  case 0
  then show ?case by simp
next
  case (Suc fuel)
  from good_step [OF Suc.prems(1), of U] Suc.prems(2) Suc.IH show ?case
    by (cases "step U p") auto
qed

text \<open>
  A document that \<open>PartialParse\<close> returns has one child, an element, and the parser is
  left ready for the next document.
\<close>

lemma PartialParse_one_root:
  "parser_inv p \<Longrightarrow> PartialParse U p = Some (Inr (Some doc, p')) \<Longrightarrow>
     parser_inv p' \<and> (\<exists>a el. doc = XmlDocument [Shared a el] [] \<and> IsElement el)"
  unfolding PartialParse_def by (rule run_one_root)

lemma parser_inv_NewParser: "parser_inv (NewParser stream)"
  by (simp add: parser_inv_def NewParser_def)

text \<open>
  Between two documents, with no input left, \<open>PartialParse\<close> returns null and leaves the
  parser as it is.
\<close>

lemma PartialParse_no_data:
  "CurrentState p = Idle \<Longrightarrow> NodeStack p = [] \<Longrightarrow> Input p = []
     \<Longrightarrow> PartialParse Unescape p = Some (Inr (None, p))"
  by (simp add: PartialParse_def step_def Dispatch_def SkipWhitespace_def Consume_def
        numeral_3_eq_3)

subsection \<open>Two roots in one stream\<close>

lemmas parser_defs = PartialParse_def NewParser_def step_def Dispatch_def ParseOpeningTag_def
  ParseAttributeKey_def OnCloseElement_def SkipWhitespace_def Consume_def starts_with_def
  cut_short_def is_name_start_def IsWhitespace_def GetSource_def AppendChild_def

lemma decimal_1: "decimal (Suc 0) = ''1''"
  by (simp add: decimal.simps)

text \<open>
  C5. A parser is given a stream that contains \<open><a/><b/>\<close>. The first call of
  \<open>PartialParse\<close> returns a document whose only child is the element \<open>a\<close> and leaves
  \<open><b/>\<close> unread; the second call, on the parser the first one left, returns a document
  whose only child is the element \<open>b\<close>; the third call returns null. So each call returns
  one completed top-level document, and null when the stream yields no further data.
\<close>

theorem PartialParse_two_roots:
  "PartialParse Unescape (NewParser ''<a/><b/>'')
     = Some (Inr (Some (XmlDocument [Shared 1 (XmlElement [] ''line 1'' ''a'' [])] []),
                  (NewParser ''<b/>'')\<lparr>Fresh := 2\<rparr>))
   \<and> PartialParse Unescape ((NewParser ''<b/>'')\<lparr>Fresh := 2\<rparr>)
     = Some (Inr (Some (XmlDocument [Shared 2 (XmlElement [] ''line 1'' ''b'' [])] []),
                  (NewParser [])\<lparr>Fresh := 3\<rparr>))
   \<and> PartialParse Unescape ((NewParser [])\<lparr>Fresh := 3\<rparr>)
     = Some (Inr (None, (NewParser [])\<lparr>Fresh := 3\<rparr>))"
  by (simp add: parser_defs decimal_1 numeral_eq_Suc)

end
